theory Spec2Isabelle
  imports Main
begin

section \<open>Python values and failures\<close>

text \<open>
  The script is Python. Every exception the modelled code can raise is a value of
  \<open>error\<close>; a fallible computation returns \<open>error + 'a\<close> with \<open>Inl\<close> the
  exception. \<open>ArgumentTypeError\<close> carries the message the script raises it with:
  it is the only exception the script raises itself, the others come from the
  interpreter and the libraries (\<open>json.JSONDecodeError\<close> and the failure of
  \<open>datetime.strptime\<close> are both \<open>ValueError\<close>; a transport failure of
  \<open>requests\<close> is \<open>RequestException\<close>).
\<close>

datatype error =
    ArgumentTypeError string
  | AttributeError
  | TypeError
  | ValueError
  | RequestException

text \<open>
  A decoded JSON payload, as \<open>json.loads\<close> returns it: \<open>None\<close>, a bool, a
  number (integers only in this model), a \<open>str\<close>, a \<open>list\<close> or a \<open>dict\<close>.
  A dict is the list of its bindings in insertion order; a key has one binding
  in a dict, and where a list had two the first is the one a lookup sees.
\<close>

datatype json =
    JNull
  | JBool bool
  | JNum int
  | JStr string
  | JList "json list"
  | JDict "(string \<times> json) list"

text \<open>Python truthiness of a decoded value (\<open>if author:\<close>).\<close>

fun truthy :: "json \<Rightarrow> bool" where
  "truthy JNull = False"
| "truthy (JBool b) = b"
| "truthy (JNum n) = (n \<noteq> 0)"
| "truthy (JStr s) = (s \<noteq> [])"
| "truthy (JList xs) = (xs \<noteq> [])"
| "truthy (JDict kvs) = (kvs \<noteq> [])"

section \<open>Strings\<close>

text \<open>
  \<open>str < str\<close>: lexicographic on code points, a proper prefix being smaller.
\<close>

fun str_lt :: "string \<Rightarrow> string \<Rightarrow> bool" where
  "str_lt [] [] = False"
| "str_lt [] (y # ys) = True"
| "str_lt (x # xs) [] = False"
| "str_lt (x # xs) (y # ys) =
     (if (of_char x :: nat) < of_char y then True
      else if x = y then str_lt xs ys
      else False)"

text \<open>\<open>s.startswith(p)\<close>.\<close>

fun startswith :: "string \<Rightarrow> string \<Rightarrow> bool" where
  "startswith s [] = True"
| "startswith [] (p # ps) = False"
| "startswith (c # cs) (p # ps) = (c = p \<and> startswith cs ps)"

text \<open>\<open>sep.join(parts)\<close>.\<close>

fun join :: "string \<Rightarrow> string list \<Rightarrow> string" where
  "join sep [] = []"
| "join sep [p] = p"
| "join sep (p # q # ps) = p @ sep @ join sep (q # ps)"

text \<open>\<open>s.split(c)\<close> for a separator of one character.\<close>

fun split_on :: "char \<Rightarrow> string \<Rightarrow> string list" where
  "split_on c [] = [[]]"
| "split_on c (x # xs) =
     (if x = c then [] # split_on c xs
      else (case split_on c xs of
              [] \<Rightarrow> [[x]]
            | p # ps \<Rightarrow> (x # p) # ps))"

text \<open>\<open>str(n)\<close> for an \<open>int\<close>: decimal digits, a minus sign when negative.\<close>

fun nat_digits :: "nat \<Rightarrow> string" where
  "nat_digits n =
     (if n < 10 then [''0123456789'' ! n]
      else nat_digits (n div 10) @ [''0123456789'' ! (n mod 10)])"

declare nat_digits.simps [simp del]

definition str_of_int :: "int \<Rightarrow> string" where
  "str_of_int i = (if i < 0 then CHR ''-'' # nat_digits (nat (- i)) else nat_digits (nat i))"

section \<open>The query string: \<open>make_params\<close>\<close>

text \<open>
  The keyword arguments \<open>make_params\<close> is called with are strings (dates, the
  branch, \<open>"all"\<close>) and one integer (\<open>PER_PAGE\<close>). \<open>kwargs\<close> is the dict of
  them in call order.
\<close>

datatype pyval = PStr string | PInt int

fun py_truthy :: "pyval \<Rightarrow> bool" where
  "py_truthy (PStr s) = (s \<noteq> [])"
| "py_truthy (PInt i) = (i \<noteq> 0)"

fun py_str :: "pyval \<Rightarrow> string" where
  "py_str (PStr s) = s"
| "py_str (PInt i) = str_of_int i"

text \<open>
  \<^verbatim>\<open>return "?" + "&".join([f"{k}={v}" for k, v in kwargs.items() if v]) if kwargs else ""\<close>

  The conditional expression binds weakest: the question mark and the joined
  pairs are the branch taken when \<open>kwargs\<close> is not empty.
\<close>

definition make_params :: "(string \<times> pyval) list \<Rightarrow> string" where
  "make_params kwargs =
     (if kwargs \<noteq> []
      then ''?'' @ join ''&'' [k @ ''='' @ py_str v. (k, v) \<leftarrow> kwargs, py_truthy v]
      else '''')"

section \<open>Validating the repository URL: \<open>check_url\<close> and the split in \<open>main\<close>\<close>

text \<open>
  The pattern of \<open>check_url\<close> is
  \<^verbatim>\<open>^https://github.com/[a-zA-Z0-9-]+/[a-zA-Z0-9-]+$\<close>, tried with \<open>re.match\<close>.
  It is kept as data and run by a backtracking matcher for the constructs it
  uses: a literal character, the dot (any character but a line feed), a
  character class of ranges and single characters, one-or-more of an atom, and
  the end anchor \<open>$\<close>, which holds at the end of the string and just before a
  line feed that ends the string. \<open>re.match\<close> starts at the first character,
  where the leading \<open>^\<close> always holds, and asks for no match of the whole string:
  the empty rest of the pattern matches anywhere.
\<close>

datatype atom = Lit char | Dot | Cls "(char \<times> char) list" "char list"

datatype re_item = One atom | Plus atom | Eol

definition between :: "char \<Rightarrow> char \<Rightarrow> char \<Rightarrow> bool" where
  "between lo hi c \<longleftrightarrow> (of_char lo :: nat) \<le> of_char c \<and> (of_char c :: nat) \<le> of_char hi"

fun atom_ok :: "atom \<Rightarrow> char \<Rightarrow> bool" where
  "atom_ok (Lit a) c = (c = a)"
| "atom_ok Dot c = (c \<noteq> CHR 0x0A)"
| "atom_ok (Cls ranges singles) c =
     (list_ex (\<lambda>r. between (fst r) (snd r) c) ranges \<or> c \<in> set singles)"

fun re_match :: "re_item list \<Rightarrow> string \<Rightarrow> bool" where
  "re_match [] s = True"
| "re_match (One a # r) [] = False"
| "re_match (One a # r) (c # cs) = (atom_ok a c \<and> re_match r cs)"
| "re_match (Plus a # r) [] = False"
| "re_match (Plus a # r) (c # cs) =
     (atom_ok a c \<and> (re_match (Plus a # r) cs \<or> re_match r cs))"
| "re_match (Eol # r) s = ((s = [] \<or> s = [CHR 0x0A]) \<and> re_match r s)"

definition name_class :: atom where
  "name_class = Cls [(CHR ''a'', CHR ''z''), (CHR ''A'', CHR ''Z''), (CHR ''0'', CHR ''9'')] [CHR ''-'']"

definition url_regex :: "re_item list" where
  "url_regex =
     map (\<lambda>c. One (Lit c)) ''https://github'' @ [One Dot] @
     map (\<lambda>c. One (Lit c)) ''com/'' @
     [Plus name_class, One (Lit CHR ''/''), Plus name_class, Eol]"

definition url_message :: string where
  "url_message = ''Url should be in https://github.com/<owner>/<repo> format''"

definition check_url :: "string \<Rightarrow> error + string" where
  "check_url url =
     (if re_match url_regex url then Inr url
      else Inl (ArgumentTypeError url_message))"

text \<open>
  \<^verbatim>\<open>owner, repo = url.split("/")[3:5]\<close> in \<open>main\<close>: the slice holds at most
  two pieces, and unpacking it into two names raises \<open>ValueError\<close> unless it
  holds exactly two.
\<close>

definition owner_repo :: "string \<Rightarrow> error + string \<times> string" where
  "owner_repo url =
     (case take 2 (drop 3 (split_on CHR ''/'' url)) of
        [owner, repo] \<Rightarrow> Inr (owner, repo)
      | _ \<Rightarrow> Inl ValueError)"

section \<open>Dates: \<open>datetime.strptime\<close> with \<open>DATE_MASK\<close>, and \<open>check_date\<close>\<close>

text \<open>
  \<open>DATE_MASK\<close> is \<^verbatim>\<open>%Y-%m-%dT%H:%M:%SZ\<close>. The script leaves the parsing to
  \<open>datetime.strptime\<close>, so the model follows what CPython does with this mask
  (\<^verbatim>\<open>Lib/_strptime.py\<close>): the mask becomes a regular expression in which each
  directive is an alternation,
  \<^item> \<^verbatim>\<open>%Y\<close>: \<^verbatim>\<open>\d\d\d\d\<close>,
  \<^item> \<^verbatim>\<open>%m\<close>: \<^verbatim>\<open>1[0-2]|0[1-9]|[1-9]\<close>,
  \<^item> \<^verbatim>\<open>%d\<close>: \<^verbatim>\<open>3[0-1]|[1-2]\d|0[1-9]|[1-9]| [1-9]\<close>,
  \<^item> \<^verbatim>\<open>%H\<close>: \<^verbatim>\<open>2[0-3]|[0-1]\d|\d\<close>,
  \<^item> \<^verbatim>\<open>%M\<close>: \<^verbatim>\<open>[0-5]\d|\d\<close>,
  \<^item> \<^verbatim>\<open>%S\<close>: \<^verbatim>\<open>6[0-1]|[0-5]\d|\d\<close>,

  the other characters stand for themselves, and the expression is compiled
  ignoring case. The first match in the matcher's order of preference is
  taken (\<open>re.match\<close>); it is a \<open>ValueError\<close> when there is none, when
  characters remain after it, and when the fields are no date or time
  (\<open>datetime\<close> takes years 1 to 9999, days that the month has, seconds up to
  59). The leading zero of a field is optional, as the library's documentation
  says of \<open>strptime\<close>. Characters are those of \<open>string\<close>, code points below
  256, where \<^verbatim>\<open>\d\<close> is an ASCII digit.

  Each directive is a function from the text to the list of its matches, a
  value and the rest of the text, in the order the alternation tries them.
\<close>

record datetime =
  year :: int
  month :: int
  day :: int
  hour :: int
  minute :: int
  second :: int

definition digit :: "char \<Rightarrow> bool" where
  "digit c = between CHR ''0'' CHR ''9'' c"

definition digit_val :: "char \<Rightarrow> int" where
  "digit_val c = int (of_char c) - 48"

definition two :: "(char \<Rightarrow> bool) \<Rightarrow> (char \<Rightarrow> bool) \<Rightarrow> string \<Rightarrow> (int \<times> string) list" where
  "two p q s =
     (case s of
        a # b # r \<Rightarrow> if p a \<and> q b then [(10 * digit_val a + digit_val b, r)] else []
      | _ \<Rightarrow> [])"

definition one :: "(char \<Rightarrow> bool) \<Rightarrow> string \<Rightarrow> (int \<times> string) list" where
  "one p s =
     (case s of
        a # r \<Rightarrow> if p a then [(digit_val a, r)] else []
      | _ \<Rightarrow> [])"

definition space_one :: "(char \<Rightarrow> bool) \<Rightarrow> string \<Rightarrow> (int \<times> string) list" where
  "space_one p s =
     (case s of
        a # b # r \<Rightarrow> if a = CHR '' '' \<and> p b then [(digit_val b, r)] else []
      | _ \<Rightarrow> [])"

definition re_Y :: "string \<Rightarrow> (int \<times> string) list" where
  "re_Y s =
     (case s of
        a # b # c # d # r \<Rightarrow>
          if digit a \<and> digit b \<and> digit c \<and> digit d
          then [(1000 * digit_val a + 100 * digit_val b + 10 * digit_val c + digit_val d, r)]
          else []
      | _ \<Rightarrow> [])"

definition re_m :: "string \<Rightarrow> (int \<times> string) list" where
  "re_m s =
     two (\<lambda>c. c = CHR ''1'') (between CHR ''0'' CHR ''2'') s @
     two (\<lambda>c. c = CHR ''0'') (between CHR ''1'' CHR ''9'') s @
     one (between CHR ''1'' CHR ''9'') s"

definition re_d :: "string \<Rightarrow> (int \<times> string) list" where
  "re_d s =
     two (\<lambda>c. c = CHR ''3'') (between CHR ''0'' CHR ''1'') s @
     two (between CHR ''1'' CHR ''2'') digit s @
     two (\<lambda>c. c = CHR ''0'') (between CHR ''1'' CHR ''9'') s @
     one (between CHR ''1'' CHR ''9'') s @
     space_one (between CHR ''1'' CHR ''9'') s"

definition re_H :: "string \<Rightarrow> (int \<times> string) list" where
  "re_H s =
     two (\<lambda>c. c = CHR ''2'') (between CHR ''0'' CHR ''3'') s @
     two (between CHR ''0'' CHR ''1'') digit s @
     one digit s"

definition re_M :: "string \<Rightarrow> (int \<times> string) list" where
  "re_M s = two (between CHR ''0'' CHR ''5'') digit s @ one digit s"

definition re_S :: "string \<Rightarrow> (int \<times> string) list" where
  "re_S s =
     two (\<lambda>c. c = CHR ''6'') (between CHR ''0'' CHR ''1'') s @
     two (between CHR ''0'' CHR ''5'') digit s @
     one digit s"

text \<open>A character of the mask; a letter matches in either case.\<close>

definition lit :: "char \<Rightarrow> char \<Rightarrow> string \<Rightarrow> string list" where
  "lit upper lower s =
     (case s of
        a # r \<Rightarrow> if a = upper \<or> a = lower then [r] else []
      | _ \<Rightarrow> [])"

definition strptime_regex :: "string \<Rightarrow> (int \<times> int \<times> int \<times> int \<times> int \<times> int \<times> string) list" where
  "strptime_regex s =
     [(Y, m, d, H, M, S, r12).
        (Y, r1) \<leftarrow> re_Y s, r2 \<leftarrow> lit CHR ''-'' CHR ''-'' r1,
        (m, r3) \<leftarrow> re_m r2, r4 \<leftarrow> lit CHR ''-'' CHR ''-'' r3,
        (d, r5) \<leftarrow> re_d r4, r6 \<leftarrow> lit CHR ''T'' CHR ''t'' r5,
        (H, r7) \<leftarrow> re_H r6, r8 \<leftarrow> lit CHR '':'' CHR '':'' r7,
        (M, r9) \<leftarrow> re_M r8, r10 \<leftarrow> lit CHR '':'' CHR '':'' r9,
        (S, r11) \<leftarrow> re_S r10, r12 \<leftarrow> lit CHR ''Z'' CHR ''z'' r11]"

text \<open>The calendar of \<open>datetime\<close> (\<^verbatim>\<open>Lib/_pydatetime.py\<close>).\<close>

definition is_leap :: "int \<Rightarrow> bool" where
  "is_leap y \<longleftrightarrow> y mod 4 = 0 \<and> (y mod 100 \<noteq> 0 \<or> y mod 400 = 0)"

definition DAYS_IN_MONTH :: "int list" where
  "DAYS_IN_MONTH = [-1, 31, 28, 31, 30, 31, 30, 31, 31, 30, 31, 30, 31]"

definition DAYS_BEFORE_MONTH :: "int list" where
  "DAYS_BEFORE_MONTH = [-1, 0, 31, 59, 90, 120, 151, 181, 212, 243, 273, 304, 334]"

definition days_in_month :: "int \<Rightarrow> int \<Rightarrow> int" where
  "days_in_month y m = (if m = 2 \<and> is_leap y then 29 else DAYS_IN_MONTH ! nat m)"

definition days_before_year :: "int \<Rightarrow> int" where
  "days_before_year yr = (let y = yr - 1 in y * 365 + y div 4 - y div 100 + y div 400)"

definition days_before_month :: "int \<Rightarrow> int \<Rightarrow> int" where
  "days_before_month y m = DAYS_BEFORE_MONTH ! nat m + (if m > 2 \<and> is_leap y then 1 else 0)"

definition toordinal :: "datetime \<Rightarrow> int" where
  "toordinal t = days_before_year (year t) + days_before_month (year t) (month t) + day t"

definition valid_fields :: "int \<Rightarrow> int \<Rightarrow> int \<Rightarrow> int \<Rightarrow> int \<Rightarrow> int \<Rightarrow> bool" where
  "valid_fields Y m d H M S \<longleftrightarrow>
     1 \<le> Y \<and> Y \<le> 9999 \<and> 1 \<le> m \<and> m \<le> 12 \<and> 1 \<le> d \<and> d \<le> days_in_month Y m \<and>
     0 \<le> H \<and> H \<le> 23 \<and> 0 \<le> M \<and> M \<le> 59 \<and> 0 \<le> S \<and> S \<le> 59"

definition strptime :: "string \<Rightarrow> error + datetime" where
  "strptime s =
     (case strptime_regex s of
        [] \<Rightarrow> Inl ValueError
      | (Y, m, d, H, M, S, rest) # _ \<Rightarrow>
          if rest \<noteq> [] then Inl ValueError
          else if valid_fields Y m d H M S
          then Inr \<lparr>year = Y, month = m, day = d, hour = H, minute = M, second = S\<rparr>
          else Inl ValueError)"

text \<open>
  \<open>(a - b).days\<close>: the difference of two datetimes is a \<open>timedelta\<close> of the
  difference of their ordinals and of their seconds of the day, normalised so
  that the seconds lie in one day; the days are then rounded towards minus
  infinity.
\<close>

definition day_seconds :: "datetime \<Rightarrow> int" where
  "day_seconds t = second t + minute t * 60 + hour t * 3600"

definition timedelta_days :: "datetime \<Rightarrow> datetime \<Rightarrow> int" where
  "timedelta_days a b = (toordinal a - toordinal b) + (day_seconds a - day_seconds b) div (24 * 3600)"

definition date_message :: string where
  "date_message = ''Please provide date in YYYY-MM-DDTHH:MM:SSZ format''"

text \<open>
  \<open>check_date\<close> parses and throws the parse away: it returns the string it
  was given, and turns the \<open>ValueError\<close> of the parser into the
  \<open>ArgumentTypeError\<close> of the message above.
\<close>

definition check_date :: "string \<Rightarrow> error + string" where
  "check_date date =
     (case strptime date of
        Inr parsed \<Rightarrow> Inr date
      | Inl e \<Rightarrow> if e = ValueError then Inl (ArgumentTypeError date_message) else Inl e)"

section \<open>The paginated fetch: \<open>get_items_list\<close>\<close>

text \<open>
  The world outside the script is the server. One run sends its requests one
  after the other, so whatever the server is, a run sees a sequence of
  responses: the model takes that sequence as given (the responses still to
  come) and records every request sent. \<open>None\<close> in the sequence is a request
  that \<open>requests\<close> could not complete. A run that asks for more responses
  than the sequence holds has no result (\<open>None\<close>): the loop of
  \<open>get_items_list\<close> ends only when a response carries no next link or an
  exception is raised.

  Of a response the script reads \<open>text\<close>, decoded at once by \<open>json.loads\<close>
  (\<open>decoded\<close>, \<open>None\<close> when the text is not JSON), \<open>status_code\<close>, and the URL
  of the link with relation \<open>next\<close> (\<open>next_link\<close>, \<open>None\<close> when there is none).
\<close>

record request =
  req_url :: string
  req_login :: string
  req_password :: string

record response =
  decoded :: "json option"
  status_code :: int
  next_link :: "string option"

type_synonym world = "response option list \<times> request list"

text \<open>
  \<open>items_list.extend(v)\<close> iterates over \<open>v\<close>: a list gives its elements, a dict
  its keys, a string its characters; the other decoded values are not iterable.
\<close>

definition list_extend :: "json list \<Rightarrow> json \<Rightarrow> error + json list" where
  "list_extend items_list v =
     (case v of
        JList xs \<Rightarrow> Inr (items_list @ xs)
      | JDict kvs \<Rightarrow> Inr (items_list @ map (\<lambda>kv. JStr (fst kv)) kvs)
      | JStr s \<Rightarrow> Inr (items_list @ map (\<lambda>c. JStr [c]) s)
      | _ \<Rightarrow> Inl TypeError)"

text \<open>Line 68: \<^verbatim>\<open>items_list.extend(json.loads(response.text))\<close>.\<close>

definition consume :: "json list \<Rightarrow> response \<Rightarrow> error + json list" where
  "consume items_list r =
     (case decoded r of
        None \<Rightarrow> Inl ValueError
      | Some v \<Rightarrow> list_extend items_list v)"

definition branch_message :: string where
  "branch_message = ''Please, make sure that branch you'' @ [CHR 0x27] @ ''ve chosen exists''"

text \<open>Lines 70 to 75: the exception a status code raises, if any.\<close>

definition status_error :: "int \<Rightarrow> error option" where
  "status_error code =
     (if code = 404 then Some (ArgumentTypeError branch_message)
      else if code = 403 then Some (ArgumentTypeError ''Request limit'')
      else if code = 401 then Some (ArgumentTypeError ''Wrong credentials'')
      else None)"

fun get_items_loop ::
  "response option list \<Rightarrow> request list \<Rightarrow> string \<Rightarrow> string \<Rightarrow> string \<Rightarrow> json list
     \<Rightarrow> ((error + json list) \<times> world) option" where
  "get_items_loop [] sent url login password items_list =
     (if url = [] then Some (Inr items_list, [], sent) else None)"
| "get_items_loop (r # pending) sent url login password items_list =
     (if url = [] then Some (Inr items_list, r # pending, sent)
      else
        let sent' = sent @ [\<lparr>req_url = url, req_login = login, req_password = password\<rparr>] in
        case r of
          None \<Rightarrow> Some (Inl RequestException, pending, sent')
        | Some response \<Rightarrow>
            (case consume items_list response of
               Inl e \<Rightarrow> Some (Inl e, pending, sent')
             | Inr items_list' \<Rightarrow>
                 let url' = (case next_link response of None \<Rightarrow> [] | Some u \<Rightarrow> u) in
                 (case status_error (status_code response) of
                    Some e \<Rightarrow> Some (Inl e, pending, sent')
                  | None \<Rightarrow> get_items_loop pending sent' url' login password items_list')))"

definition get_items_list :: "world \<Rightarrow> string \<Rightarrow> string \<Rightarrow> string \<Rightarrow> ((error + json list) \<times> world) option" where
  "get_items_list w url login password = get_items_loop (fst w) (snd w) url login password []"

definition PER_PAGE :: int where
  "PER_PAGE = 100"

definition BASE_URL :: "string \<Rightarrow> string \<Rightarrow> string" where
  "BASE_URL owner repo = ''https://api.github.com/repos/'' @ owner @ ''/'' @ repo @ ''/''"

definition COMMITS_URL :: "string \<Rightarrow> string \<Rightarrow> string \<Rightarrow> string" where
  "COMMITS_URL owner repo params = BASE_URL owner repo @ ''commits'' @ params"

definition ISSUES_URL :: "string \<Rightarrow> string \<Rightarrow> string \<Rightarrow> string" where
  "ISSUES_URL owner repo params = BASE_URL owner repo @ ''issues'' @ params"

section \<open>The contributors: \<open>get_top_contributors\<close>\<close>

text \<open>\<open>d.get(k, default)\<close> on the bindings of a dict.\<close>

definition get :: "(string \<times> json) list \<Rightarrow> string \<Rightarrow> json \<Rightarrow> json" where
  "get kvs k dflt = (case map_of kvs k of None \<Rightarrow> dflt | Some v \<Rightarrow> v)"

text \<open>
  Lines 97 to 99. The login a commit is tallied under: none when the commit
  has no author or a falsy one (\<open>null\<close>, an empty object), the author's
  \<open>login\<close> (the empty string when the author has none) otherwise. A commit
  that is no object and a truthy author that is no object have no \<open>get\<close>. A
  login that is not a string ends the run with \<open>TypeError\<close>: a list or a dict
  is unhashable at \<open>login not in result\<close>, and the other values, entered
  into \<open>result\<close>, have no \<open>len\<close> on line 102.
\<close>

definition commit_login :: "json \<Rightarrow> error + string option" where
  "commit_login commit =
     (case commit of
        JDict c \<Rightarrow>
          let author = get c ''author'' (JDict []) in
          if truthy author then
            (case author of
               JDict a \<Rightarrow>
                 (case get a ''login'' (JStr []) of
                    JStr login \<Rightarrow> Inr (Some login)
                  | _ \<Rightarrow> Inl TypeError)
             | _ \<Rightarrow> Inl AttributeError)
          else Inr None
      | _ \<Rightarrow> Inl AttributeError)"

text \<open>
  Line 104: \<^verbatim>\<open>commit.get("commit", {}).get("message", "").startswith("Merge")\<close>.
\<close>

definition commit_is_merge :: "json \<Rightarrow> error + bool" where
  "commit_is_merge commit =
     (case commit of
        JDict c \<Rightarrow>
          (case get c ''commit'' (JDict []) of
             JDict cc \<Rightarrow>
               (case get cc ''message'' (JStr []) of
                  JStr message \<Rightarrow> Inr (startswith message ''Merge'')
                | _ \<Rightarrow> Inl AttributeError)
           | _ \<Rightarrow> Inl AttributeError)
      | _ \<Rightarrow> Inl AttributeError)"

text \<open>\<open>result[login] += 1\<close> on the dict \<open>result\<close>, kept in insertion order.\<close>

definition increment :: "string \<Rightarrow> (string \<times> int) list \<Rightarrow> (string \<times> int) list" where
  "increment login result = map (\<lambda>kv. if fst kv = login then (fst kv, snd kv + 1) else kv) result"

text \<open>
  The body of the loop over the commits, on the state \<open>(result, login_max_len)\<close>.
\<close>

definition tally_step :: "(string \<times> int) list \<times> nat \<Rightarrow> json \<Rightarrow> error + (string \<times> int) list \<times> nat" where
  "tally_step st commit =
     (case commit_login commit of
        Inl e \<Rightarrow> Inl e
      | Inr None \<Rightarrow> Inr st
      | Inr (Some login) \<Rightarrow>
          let result = fst st;
              login_max_len = snd st;
              st' = (if login \<notin> set (map fst result)
                     then (result @ [(login, 0)],
                           if length login > login_max_len then length login else login_max_len)
                     else (result, login_max_len))
          in (case commit_is_merge commit of
                Inl e \<Rightarrow> Inl e
              | Inr merge \<Rightarrow>
                  Inr (if \<not> merge then (increment login (fst st'), snd st') else st')))"

fun tally_loop :: "json list \<Rightarrow> (string \<times> int) list \<times> nat \<Rightarrow> error + (string \<times> int) list \<times> nat" where
  "tally_loop [] st = Inr st"
| "tally_loop (commit # commits) st =
     (case tally_step st commit of
        Inl e \<Rightarrow> Inl e
      | Inr st' \<Rightarrow> tally_loop commits st')"

text \<open>Lines 94 to 105: the tally of a list of commits, from the empty dict.\<close>

definition tally :: "json list \<Rightarrow> error + (string \<times> int) list \<times> nat" where
  "tally commits = tally_loop commits ([], 0)"

text \<open>
  Line 107: \<^verbatim>\<open>sorted(result.items(), key=lambda it: it[1], reverse=True)\<close>, a stable
  sort by falling count.
\<close>

definition contributors :: "(string \<times> int) list \<Rightarrow> (string \<times> int) list" where
  "contributors result = sort_key (\<lambda>it. - snd it) result"

text \<open>
  The function fetches the commits, tallies them and prints the first thirty
  contributors; the model returns the rows printed (the layout of the print is
  left out).
\<close>

definition get_top_contributors ::
  "string \<Rightarrow> string \<Rightarrow> string \<Rightarrow> string \<Rightarrow> string \<Rightarrow> string \<Rightarrow> string \<Rightarrow> world
     \<Rightarrow> ((error + (string \<times> int) list) \<times> world) option" where
  "get_top_contributors owner repo start_date end_date branch login password w =
     (let params = make_params [(''start_date'', PStr start_date), (''end_date'', PStr end_date),
                                (''sha'', PStr branch), (''per_page'', PInt PER_PAGE)];
          url = COMMITS_URL owner repo params
      in case get_items_list w url login password of
           None \<Rightarrow> None
         | Some (Inl e, w') \<Rightarrow> Some (Inl e, w')
         | Some (Inr commits, w') \<Rightarrow>
             (case tally commits of
                Inl e \<Rightarrow> Some (Inl e, w')
              | Inr (result, login_max_len) \<Rightarrow> Some (Inr (take 30 (contributors result)), w')))"

section \<open>Issues and pull requests: \<open>get_stats\<close>\<close>

datatype item_type = Pull_request | Issue

definition OLD_DAYS_NUM :: "item_type \<Rightarrow> int" where
  "OLD_DAYS_NUM t = (case t of Pull_request \<Rightarrow> 30 | Issue \<Rightarrow> 14)"

text \<open>The dicts \<open>issues\<close> and \<open>pull_requests\<close>: three counters under fixed keys.\<close>

record counters =
  open_count :: int
  closed_count :: int
  old_count :: int

definition zero_counters :: counters where
  "zero_counters = \<lparr>open_count = 0, closed_count = 0, old_count = 0\<rparr>"

text \<open>\<open>datetime.strptime\<close> of a decoded value: a \<open>TypeError\<close> unless it is a string.\<close>

definition strptime_json :: "json \<Rightarrow> error + datetime" where
  "strptime_json v = (case v of JStr s \<Rightarrow> strptime s | _ \<Rightarrow> Inl TypeError)"

definition is_old_pr :: "json \<Rightarrow> string \<Rightarrow> item_type \<Rightarrow> error + bool" where
  "is_old_pr pr_create_date period_end_date item_type =
     (case strptime_json pr_create_date of
        Inl e \<Rightarrow> Inl e
      | Inr created \<Rightarrow>
          (case strptime period_end_date of
             Inl e \<Rightarrow> Inl e
           | Inr ended \<Rightarrow>
               let diff = timedelta_days ended created
               in Inr (diff > OLD_DAYS_NUM item_type)))"

text \<open>
  Line 142: \<^verbatim>\<open>start_date < item.get("created_at") < end_date\<close>. The dates of the
  command line are strings, and a string compares with a string only: with
  any other value, the \<open>None\<close> of a missing key among them, the first
  comparison raises \<open>TypeError\<close>. The second comparison is made only when the
  first holds, and is then between strings.
\<close>

definition in_window :: "string \<Rightarrow> json \<Rightarrow> string \<Rightarrow> error + bool" where
  "in_window start_date created_at end_date =
     (case created_at of
        JStr c \<Rightarrow> Inr (str_lt start_date c \<and> str_lt c end_date)
      | _ \<Rightarrow> Inl TypeError)"

text \<open>Lines 143 and 144: the type of an item, by its \<open>pull_request\<close> entry.\<close>

definition type_of_item :: "(string \<times> json) list \<Rightarrow> item_type" where
  "type_of_item kvs = (if truthy (get kvs ''pull_request'' (JStr [])) then Pull_request else Issue)"

text \<open>
  \<open>dict_by_item_type\<close> is one of the two dicts: an update through it is an
  update of that dict. The state of the loop is \<open>(issues, pull_requests)\<close>.
\<close>

definition by_type :: "item_type \<Rightarrow> (counters \<Rightarrow> counters) \<Rightarrow> counters \<times> counters \<Rightarrow> counters \<times> counters" where
  "by_type t f st = (case t of Issue \<Rightarrow> (f (fst st), snd st) | Pull_request \<Rightarrow> (fst st, f (snd st)))"

text \<open>Lines 142 to 150: the body of the loop over the items.\<close>

definition stats_step :: "string \<Rightarrow> string \<Rightarrow> counters \<times> counters \<Rightarrow> json \<Rightarrow> error + counters \<times> counters" where
  "stats_step start_date end_date st item =
     (case item of
        JDict kvs \<Rightarrow>
          (case in_window start_date (get kvs ''created_at'' JNull) end_date of
             Inl e \<Rightarrow> Inl e
           | Inr inside \<Rightarrow>
               if inside then
                 let item_type = type_of_item kvs;
                     state = get kvs ''state'' JNull
                 in (case (if state = JStr ''open''
                           then (case is_old_pr (get kvs ''created_at'' JNull) end_date item_type of
                                   Inl e \<Rightarrow> Inl e
                                 | Inr is_old \<Rightarrow>
                                     let st1 = by_type item_type (\<lambda>d. d\<lparr>open_count := open_count d + 1\<rparr>) st
                                     in Inr (if is_old
                                             then by_type item_type (\<lambda>d. d\<lparr>old_count := old_count d + 1\<rparr>) st1
                                             else st1))
                           else Inr st) of
                       Inl e \<Rightarrow> Inl e
                     | Inr st2 \<Rightarrow>
                         Inr (if state = JStr ''closed''
                              then by_type item_type (\<lambda>d. d\<lparr>closed_count := closed_count d + 1\<rparr>) st2
                              else st2))
               else Inr st)
      | _ \<Rightarrow> Inl AttributeError)"

fun stats_loop :: "string \<Rightarrow> string \<Rightarrow> json list \<Rightarrow> counters \<times> counters \<Rightarrow> error + counters \<times> counters" where
  "stats_loop start_date end_date [] st = Inr st"
| "stats_loop start_date end_date (item # items) st =
     (case stats_step start_date end_date st item of
        Inl e \<Rightarrow> Inl e
      | Inr st' \<Rightarrow> stats_loop start_date end_date items st')"

text \<open>
  Lines 139 to 150: the counters \<open>(issues, pull_requests)\<close> of a list of
  items, both from zero.
\<close>

definition stats :: "string \<Rightarrow> string \<Rightarrow> json list \<Rightarrow> error + counters \<times> counters" where
  "stats start_date end_date items = stats_loop start_date end_date items (zero_counters, zero_counters)"

text \<open>
  The function fetches the items, counts them and prints the counters of the
  pull requests, then those of the issues; the model returns the two records
  in that order.
\<close>

definition get_stats ::
  "string \<Rightarrow> string \<Rightarrow> string \<Rightarrow> string \<Rightarrow> string \<Rightarrow> string \<Rightarrow> string \<Rightarrow> world
     \<Rightarrow> ((error + counters \<times> counters) \<times> world) option" where
  "get_stats owner repo start_date end_date branch login password w =
     (let params = make_params [(''state'', PStr ''all''), (''base'', PStr branch), (''per_page'', PInt PER_PAGE)];
          url = ISSUES_URL owner repo params
      in case get_items_list w url login password of
           None \<Rightarrow> None
         | Some (Inl e, w') \<Rightarrow> Some (Inl e, w')
         | Some (Inr items, w') \<Rightarrow>
             (case stats start_date end_date items of
                Inl e \<Rightarrow> Some (Inl e, w')
              | Inr (issues, pull_requests) \<Rightarrow> Some (Inr (pull_requests, issues), w')))"

section \<open>The program: \<open>main\<close>\<close>

text \<open>
  The two reports, the contributors first. An exception in the first report
  ends the run before the second is begun.
\<close>

definition main ::
  "string \<Rightarrow> string \<Rightarrow> string \<Rightarrow> string \<Rightarrow> string \<Rightarrow> string \<Rightarrow> world
     \<Rightarrow> ((error + (string \<times> int) list \<times> counters \<times> counters) \<times> world) option" where
  "main url start_date end_date branch login password w =
     (case owner_repo url of
        Inl e \<Rightarrow> Some (Inl e, w)
      | Inr (owner, repo) \<Rightarrow>
          (case get_top_contributors owner repo start_date end_date branch login password w of
             None \<Rightarrow> None
           | Some (Inl e, w1) \<Rightarrow> Some (Inl e, w1)
           | Some (Inr rows, w1) \<Rightarrow>
               (case get_stats owner repo start_date end_date branch login password w1 of
                  None \<Rightarrow> None
                | Some (Inl e, w2) \<Rightarrow> Some (Inl e, w2)
                | Some (Inr (pull_requests, issues), w2) \<Rightarrow> Some (Inr (rows, pull_requests, issues), w2))))"

section \<open>Notions the properties are stated with\<close>


text \<open>
  A commit the loop of the tally passes without an exception: it has no author,
  or its login and its message can both be read.
\<close>

definition well_formed_commit :: "json \<Rightarrow> bool" where
  "well_formed_commit c =
     (case commit_login c of
        Inl e \<Rightarrow> False
      | Inr None \<Rightarrow> True
      | Inr (Some login) \<Rightarrow> (case commit_is_merge c of Inl e \<Rightarrow> False | Inr merge \<Rightarrow> True))"

text \<open>
  The whole days from one datetime to another: the seconds between them, in days,
  rounded towards minus infinity.
\<close>

definition whole_days :: "datetime \<Rightarrow> datetime \<Rightarrow> int" where
  "whole_days ended created =
     ((toordinal ended * 86400 + day_seconds ended) -
      (toordinal created * 86400 + day_seconds created)) div 86400"

text \<open>
  What the statistics read of an item: its \<open>created_at\<close> and its \<open>state\<close>
  (\<open>None\<close> when the item has none, or is no object), and its type.
\<close>

definition item_created_at :: "json \<Rightarrow> json" where
  "item_created_at item = (case item of JDict kvs \<Rightarrow> get kvs ''created_at'' JNull | _ \<Rightarrow> JNull)"

definition item_state :: "json \<Rightarrow> json" where
  "item_state item = (case item of JDict kvs \<Rightarrow> get kvs ''state'' JNull | _ \<Rightarrow> JNull)"

definition item_kind :: "json \<Rightarrow> item_type" where
  "item_kind item = (case item of JDict kvs \<Rightarrow> type_of_item kvs | _ \<Rightarrow> Issue)"

text \<open>
  An item is inside the window when its \<open>created_at\<close> is a string strictly
  between the two dates, as strings.
\<close>

definition item_inside :: "string \<Rightarrow> string \<Rightarrow> json \<Rightarrow> bool" where
  "item_inside start_date end_date item =
     (case item_created_at item of
        JStr c \<Rightarrow> str_lt start_date c \<and> str_lt c end_date
      | _ \<Rightarrow> False)"

text \<open>
  The age of an item at the end of the period, in whole days; none when one of
  the two dates does not parse. An item is older than a number of days when it
  has an age above it.
\<close>

definition item_age :: "string \<Rightarrow> json \<Rightarrow> int option" where
  "item_age end_date item =
     (case strptime_json (item_created_at item) of
        Inl e \<Rightarrow> None
      | Inr created \<Rightarrow>
          (case strptime end_date of
             Inl e \<Rightarrow> None
           | Inr ended \<Rightarrow> Some (whole_days ended created)))"

definition older_than :: "int \<Rightarrow> string \<Rightarrow> json \<Rightarrow> bool" where
  "older_than days end_date item =
     (case item_age end_date item of
        None \<Rightarrow> False
      | Some age \<Rightarrow> age > days)"

text \<open>The counters of a type in the state of the loop, and the number of items with a property.\<close>

definition of_type :: "item_type \<Rightarrow> counters \<times> counters \<Rightarrow> counters" where
  "of_type t st = (case t of Issue \<Rightarrow> fst st | Pull_request \<Rightarrow> snd st)"

definition count_items :: "(json \<Rightarrow> bool) \<Rightarrow> json list \<Rightarrow> int" where
  "count_items P items = int (length (filter P items))"

section \<open>Properties of the query string\<close>

lemma join_nonempty: "ps \<noteq> [] \<Longrightarrow> (\<forall>p \<in> set ps. p \<noteq> []) \<Longrightarrow> join sep ps \<noteq> []"
  by (induction sep ps rule: join.induct) auto

lemma pairs_map_filter:
  "[k @ ''='' @ py_str v. (k, v) \<leftarrow> kwargs, py_truthy v] =
   map (\<lambda>kv. fst kv @ ''='' @ py_str (snd kv)) (filter (\<lambda>kv. py_truthy (snd kv)) kwargs)"
  by (induction kwargs) auto

text \<open>
  C8, as the code has it. The query string is empty for no parameters. For
  any other map it is the question mark followed by the pairs \<open>key=value\<close> of
  exactly the parameters with truthy values, in their order, joined by \<open>&\<close>.
  So the question mark is there if and only if the map has a parameter,
  whatever its value, and it stands alone when no value is truthy.
\<close>

theorem make_params_query:
  "make_params [] = [] \<and>
   (kwargs \<noteq> [] \<longrightarrow>
      make_params kwargs =
        CHR ''?'' # join ''&'' (map (\<lambda>kv. fst kv @ ''='' @ py_str (snd kv))
                                  (filter (\<lambda>kv. py_truthy (snd kv)) kwargs))) \<and>
   ((\<exists>query. make_params kwargs = CHR ''?'' # query) \<longleftrightarrow> kwargs \<noteq> []) \<and>
   (make_params kwargs = ''?'' \<longleftrightarrow> kwargs \<noteq> [] \<and> filter (\<lambda>kv. py_truthy (snd kv)) kwargs = [])"
proof -
  let ?pairs = "map (\<lambda>kv. fst kv @ ''='' @ py_str (snd kv)) (filter (\<lambda>kv. py_truthy (snd kv)) kwargs)"
  have pairs: "[k @ ''='' @ py_str v. (k, v) \<leftarrow> kwargs, py_truthy v] = ?pairs"
    by (rule pairs_map_filter)
  have empty: "make_params [] = []"
    by (simp add: make_params_def)
  have full: "kwargs \<noteq> [] \<Longrightarrow> make_params kwargs = CHR ''?'' # join ''&'' ?pairs"
    unfolding make_params_def pairs by simp
  have mark: "(\<exists>query. make_params kwargs = CHR ''?'' # query) \<longleftrightarrow> kwargs \<noteq> []"
    using full empty by (cases "kwargs = []") auto
  have "join ''&'' ?pairs = [] \<longleftrightarrow> filter (\<lambda>kv. py_truthy (snd kv)) kwargs = []"
  proof
    assume none: "join ''&'' ?pairs = []"
    show "filter (\<lambda>kv. py_truthy (snd kv)) kwargs = []"
    proof (rule ccontr)
      assume "filter (\<lambda>kv. py_truthy (snd kv)) kwargs \<noteq> []"
      then have "?pairs \<noteq> []" by simp
      moreover have "\<forall>p \<in> set ?pairs. p \<noteq> []" by auto
      ultimately have "join ''&'' ?pairs \<noteq> []" by (rule join_nonempty)
      with none show False by simp
    qed
  next
    assume "filter (\<lambda>kv. py_truthy (snd kv)) kwargs = []"
    then show "join ''&'' ?pairs = []" by simp
  qed
  then have bare: "make_params kwargs = ''?'' \<longleftrightarrow> kwargs \<noteq> [] \<and> filter (\<lambda>kv. py_truthy (snd kv)) kwargs = []"
    using full empty by (cases "kwargs = []") auto
  from empty full mark bare show ?thesis by blast
qed

theorem make_params_query_witness:
  "[(''sha'', PStr ''master''), (''base'', PStr ''''), (''per_page'', PInt 100)] \<noteq> [] \<and>
   make_params [(''sha'', PStr ''master''), (''base'', PStr ''''), (''per_page'', PInt 100)]
     = ''?sha=master&per_page=100''"
  using make_params_query [of "[(''sha'', PStr ''master''), (''base'', PStr ''''), (''per_page'', PInt 100)]"]
  by (simp add: str_of_int_def nat_digits.simps)

text \<open>
  C8 as the specification words it ties the question mark to a parameter with
  a truthy value. A map whose only value is the empty string has none, and
  its query string is the question mark.
\<close>

theorem make_params_falsy_counterexample:
  "make_params [(''sha'', PStr '''')] = ''?'' \<and> py_truthy (PStr '''') = False"
  by (simp add: make_params_def)

section \<open>Properties of the URL check\<close>












text \<open>
  Two strings the pattern lets through beside those of the theorem: its dot is
  any character, and its end anchor allows a line feed after the repository
  name, which \<open>main\<close> then takes for a part of the name.
\<close>

lemma check_url_dot_and_line_feed:
  "check_url ''https://githubXcom/owner/repo'' = Inr ''https://githubXcom/owner/repo'' \<and>
   check_url (''https://github.com/owner/repo'' @ [CHR 0x0A]) = Inr (''https://github.com/owner/repo'' @ [CHR 0x0A]) \<and>
   owner_repo (''https://github.com/owner/repo'' @ [CHR 0x0A]) = Inr (''owner'', ''repo'' @ [CHR 0x0A])"
  by (simp add: check_url_def url_regex_def name_class_def between_def owner_repo_def)

section \<open>Properties of the date check\<close>

lemmas strptime_defs =
  strptime_def strptime_regex_def re_Y_def re_m_def re_d_def re_H_def re_M_def re_S_def
  lit_def two_def one_def space_one_def digit_def digit_val_def between_def valid_fields_def
  days_in_month_def is_leap_def DAYS_IN_MONTH_def

lemma check_date_returns_argument:
  "check_date s = Inr s \<or> check_date s = Inl (ArgumentTypeError date_message)"
proof (cases "strptime s")
  case (Inl e)
  then have "e = ValueError"
    by (auto simp: strptime_def split: list.splits prod.splits if_splits)
  with Inl show ?thesis by (simp add: check_date_def)
next
  case (Inr t)
  then show ?thesis by (simp add: check_date_def)
qed

lemma check_date_canonical_example:
  "check_date ''2020-01-05T03:04:05Z'' = Inr ''2020-01-05T03:04:05Z'' \<and>
   check_date ''2020-02-30T03:04:05Z'' = Inl (ArgumentTypeError date_message) \<and>
   check_date ''05/01/2020'' = Inl (ArgumentTypeError date_message)"
  by (simp add: check_date_def strptime_defs)

text \<open>
  C9 at the failing input. The string \<open>2020-1-5T3:4:5Z\<close> is not of the form
  \<open>YYYY-MM-DDTHH:MM:SSZ\<close>, and the check accepts it and returns it as it is:
  the parser takes fields without their leading zero. The dates are compared
  as strings afterwards, and this start date, the fifth of January, is not
  before the first of June of its year.
\<close>

theorem check_date_accepts_unpadded:
  "check_date ''2020-1-5T3:4:5Z'' = Inr ''2020-1-5T3:4:5Z'' \<and>
   in_window ''2020-1-5T3:4:5Z'' (JStr ''2020-06-01T00:00:00Z'') ''2021-01-01T00:00:00Z'' = Inr False"
  by (simp add: check_date_def strptime_defs in_window_def)

section \<open>Properties of the tally\<close>

lemma map_of_increment:
  "map_of (increment k r) l = (if l = k then map_option (\<lambda>v. v + 1) (map_of r k) else map_of r l)"
  by (induction r) (auto simp: increment_def)

lemma keys_increment: "map fst (increment k r) = map fst r"
  by (induction r) (auto simp: increment_def)

lemma tally_step_result:
  assumes step: "tally_step (r0, n0) c = Inr (r1, n1)" and keys: "distinct (map fst r0)"
  shows "distinct (map fst r1) \<and>
         map_of r1 l =
           (if commit_login c = Inr (Some l)
            then Some ((case map_of r0 l of None \<Rightarrow> 0 | Some v \<Rightarrow> v) +
                       (if commit_is_merge c = Inr False then 1 else 0))
            else map_of r0 l)"
proof (cases "commit_login c")
  case (Inl e)
  with step show ?thesis by (simp add: tally_step_def)
next
  case (Inr who)
  show ?thesis
  proof (cases who)
    case None
    with Inr step keys show ?thesis by (simp add: tally_step_def)
  next
    case (Some login)
    from step Inr Some obtain merge where merge: "commit_is_merge c = Inr merge"
      by (cases "commit_is_merge c") (simp_all add: tally_step_def Let_def)
    define r' where "r' = (if login \<notin> set (map fst r0) then r0 @ [(login, 0)] else r0)"
    have r1: "r1 = (if \<not> merge then increment login r' else r')"
      using step Inr Some merge by (auto simp: tally_step_def Let_def r'_def split: if_splits)
    have d': "distinct (map fst r')"
      using keys by (simp add: r'_def)
    have m': "map_of r' l = (if l = login then Some (case map_of r0 l of None \<Rightarrow> 0 | Some v \<Rightarrow> v) else map_of r0 l)"
    proof (cases "login \<in> set (map fst r0)")
      case True
      then obtain v where "map_of r0 login = Some v"
        by (metis map_of_eq_None_iff not_Some_eq set_map)
      with True show ?thesis by (simp add: r'_def)
    next
      case False
      then have "map_of r0 login = None"
        by (simp add: map_of_eq_None_iff)
      with False show ?thesis by (auto simp: r'_def map_add_def split: option.splits)
    qed
    have "distinct (map fst r1)"
      using r1 d' by (simp add: keys_increment)
    moreover have "map_of r1 l =
           (if commit_login c = Inr (Some l)
            then Some ((case map_of r0 l of None \<Rightarrow> 0 | Some v \<Rightarrow> v) +
                       (if commit_is_merge c = Inr False then 1 else 0))
            else map_of r0 l)"
      using r1 m' Inr Some merge by (auto simp: map_of_increment)
    ultimately show ?thesis by simp
  qed
qed

lemma tally_loop_result:
  "tally_loop cs (r0, n0) = Inr (r, n) \<Longrightarrow> distinct (map fst r0) \<Longrightarrow>
   distinct (map fst r) \<and>
   map_of r l =
     (if \<exists>c \<in> set cs. commit_login c = Inr (Some l)
      then Some ((case map_of r0 l of None \<Rightarrow> 0 | Some v \<Rightarrow> v) +
                 int (length (filter (\<lambda>c. commit_login c = Inr (Some l) \<and> commit_is_merge c = Inr False) cs)))
      else map_of r0 l)"
proof (induction cs arbitrary: r0 n0)
  case Nil
  then show ?case by simp
next
  case (Cons c cs)
  from Cons.prems(1) obtain r1 n1 where
      step: "tally_step (r0, n0) c = Inr (r1, n1)" and rest: "tally_loop cs (r1, n1) = Inr (r, n)"
    by (cases "tally_step (r0, n0) c") auto
  from tally_step_result [OF step Cons.prems(2), of l]
  have d1: "distinct (map fst r1)"
    and m1: "map_of r1 l =
           (if commit_login c = Inr (Some l)
            then Some ((case map_of r0 l of None \<Rightarrow> 0 | Some v \<Rightarrow> v) +
                       (if commit_is_merge c = Inr False then 1 else 0))
            else map_of r0 l)"
    by simp_all
  from Cons.IH [OF rest d1]
  have d: "distinct (map fst r)"
    and m: "map_of r l =
     (if \<exists>c \<in> set cs. commit_login c = Inr (Some l)
      then Some ((case map_of r1 l of None \<Rightarrow> 0 | Some v \<Rightarrow> v) +
                 int (length (filter (\<lambda>c. commit_login c = Inr (Some l) \<and> commit_is_merge c = Inr False) cs)))
      else map_of r1 l)"
    by simp_all
  from d m m1 show ?case by auto
qed

lemma tally_step_defined: "(\<exists>st'. tally_step st c = Inr st') \<longleftrightarrow> well_formed_commit c"
  by (auto simp: tally_step_def well_formed_commit_def Let_def split: sum.splits option.splits)

lemma tally_loop_defined:
  "(\<exists>st'. tally_loop cs st = Inr st') \<longleftrightarrow> list_all well_formed_commit cs"
proof (induction cs arbitrary: st)
  case Nil
  then show ?case by simp
next
  case (Cons c cs)
  show ?case
  proof (cases "tally_step st c")
    case (Inl e)
    then have "\<not> well_formed_commit c"
      using tally_step_defined [of st c] by simp
    with Inl show ?thesis by simp
  next
    case (Inr st1)
    then have "well_formed_commit c"
      using tally_step_defined [of st c] by simp
    with Inr Cons.IH [of st1] show ?thesis by simp
  qed
qed

text \<open>
  C3. When the tally of a list of commits ends without an exception, the keys
  of \<open>result\<close> are distinct and are exactly the logins some commit is tallied
  under, and each is mapped to the number of the commits tallied under it whose
  message does not start with \<open>Merge\<close>. So a commit without an author object
  adds no key and no count, and a commit with an author whose message starts
  with \<open>Merge\<close> adds the key of its login and no count: an author of merge
  commits only is there with 0. The tally ends without an exception exactly
  when every commit is well formed. For the four commits of the
  specification's example it is \<open>A: 1, B: 1\<close>.
\<close>

theorem tally_counts:
  "(tally commits = Inr (result, n) \<longrightarrow>
      distinct (map fst result) \<and>
      (\<forall>login. map_of result login =
         (if \<exists>c \<in> set commits. commit_login c = Inr (Some login)
          then Some (int (length (filter (\<lambda>c. commit_login c = Inr (Some login) \<and>
                                               commit_is_merge c = Inr False) commits)))
          else None))) \<and>
   ((\<exists>result n. tally commits = Inr (result, n)) \<longleftrightarrow>
      list_all well_formed_commit commits) \<and>
   tally [JDict [(''author'', JDict [(''login'', JStr ''A'')]),
                 (''commit'', JDict [(''message'', JStr ''Merge pull request'')])],
          JDict [(''author'', JDict [(''login'', JStr ''A'')]),
                 (''commit'', JDict [(''message'', JStr ''fix bug'')])],
          JDict [(''author'', JDict [(''login'', JStr ''B'')]),
                 (''commit'', JDict [(''message'', JStr ''feat'')])],
          JDict [(''commit'', JDict [(''message'', JStr ''no author'')])]]
     = Inr ([(''A'', 1), (''B'', 1)], 1)"
proof (intro conjI impI allI)
  assume t: "tally commits = Inr (result, n)"
  then have loop: "tally_loop commits ([], 0) = Inr (result, n)"
    by (simp add: tally_def)
  from tally_loop_result [OF loop] show "distinct (map fst result)"
    by simp
  fix login
  from tally_loop_result [OF loop, of login]
  show "map_of result login =
         (if \<exists>c \<in> set commits. commit_login c = Inr (Some login)
          then Some (int (length (filter (\<lambda>c. commit_login c = Inr (Some login) \<and>
                                               commit_is_merge c = Inr False) commits)))
          else None)"
    by simp
next
  show "(\<exists>result n. tally commits = Inr (result, n)) \<longleftrightarrow>
      list_all well_formed_commit commits"
    using tally_loop_defined [of commits "([], 0)"] by (simp add: tally_def)
next
  show "tally [JDict [(''author'', JDict [(''login'', JStr ''A'')]),
                 (''commit'', JDict [(''message'', JStr ''Merge pull request'')])],
          JDict [(''author'', JDict [(''login'', JStr ''A'')]),
                 (''commit'', JDict [(''message'', JStr ''fix bug'')])],
          JDict [(''author'', JDict [(''login'', JStr ''B'')]),
                 (''commit'', JDict [(''message'', JStr ''feat'')])],
          JDict [(''commit'', JDict [(''message'', JStr ''no author'')])]]
     = Inr ([(''A'', 1), (''B'', 1)], 1)"
    by (simp add: tally_def tally_step_def commit_login_def commit_is_merge_def get_def increment_def)
qed

text \<open>An author of a merge commit only, a commit without author, and a third author.\<close>

theorem tally_counts_witness:
  "tally [JDict [(''author'', JDict [(''login'', JStr ''A'')]),
                 (''commit'', JDict [(''message'', JStr ''Merge branch x'')])],
          JDict [(''author'', JNull), (''commit'', JDict [(''message'', JStr ''feat'')])],
          JDict [(''author'', JDict [(''login'', JStr ''B'')]),
                 (''commit'', JDict [(''message'', JStr ''feat'')])]]
     = Inr ([(''A'', 0), (''B'', 1)], 1) \<and>
   map_of [(''A'', 0 :: int), (''B'', 1)] ''A'' = Some 0 \<and>
   map_of [(''A'', 0 :: int), (''B'', 1)] ''B'' = Some 1 \<and>
   map_of [(''A'', 0 :: int), (''B'', 1)] ''C'' = None"
proof -
  let ?cs = "[JDict [(''author'', JDict [(''login'', JStr ''A'')]),
                 (''commit'', JDict [(''message'', JStr ''Merge branch x'')])],
          JDict [(''author'', JNull), (''commit'', JDict [(''message'', JStr ''feat'')])],
          JDict [(''author'', JDict [(''login'', JStr ''B'')]),
                 (''commit'', JDict [(''message'', JStr ''feat'')])]]"
  have run: "tally ?cs = Inr ([(''A'', 0), (''B'', 1)], 1)"
    by (simp add: tally_def tally_step_def commit_login_def commit_is_merge_def get_def increment_def)
  from tally_counts [of ?cs "[(''A'', 0), (''B'', 1)]" 1] run
  have "\<forall>login. map_of [(''A'', 0 :: int), (''B'', 1)] login =
         (if \<exists>c \<in> set ?cs. commit_login c = Inr (Some login)
          then Some (int (length (filter (\<lambda>c. commit_login c = Inr (Some login) \<and>
                                               commit_is_merge c = Inr False) ?cs)))
          else None)"
    by blast
  then have "map_of [(''A'', 0 :: int), (''B'', 1)] ''A'' = Some 0"
    and "map_of [(''A'', 0 :: int), (''B'', 1)] ''B'' = Some 1"
    and "map_of [(''A'', 0 :: int), (''B'', 1)] ''C'' = None"
    by simp_all
  with run show ?thesis by blast
qed

text \<open>
  The ranking: the rows are those of the tally, by falling count, rows of the
  same count in the order they entered the tally.
\<close>

lemma contributors_ranked:
  "sorted (map (\<lambda>it. - snd it) (contributors result)) \<and>
   set (contributors result) = set result \<and>
   length (contributors result) = length result"
  by (simp add: contributors_def)

lemma contributors_example:
  "contributors [(''a'', 1), (''b'', 3), (''c'', 1), (''d'', 3)] = [(''b'', 3), (''d'', 3), (''a'', 1), (''c'', 1)]"
  by (simp add: contributors_def)

section \<open>Properties of the statistics\<close>

lemma timedelta_days_whole: "timedelta_days a b = whole_days a b"
proof -
  have "((toordinal a - toordinal b) * 86400 + (day_seconds a - day_seconds b)) div 86400
        = (toordinal a - toordinal b) + (day_seconds a - day_seconds b) div 86400"
    by simp
  moreover have "(toordinal a * 86400 + day_seconds a) - (toordinal b * 86400 + day_seconds b)
        = (toordinal a - toordinal b) * 86400 + (day_seconds a - day_seconds b)"
    by (simp add: algebra_simps)
  ultimately show ?thesis
    by (simp add: timedelta_days_def whole_days_def)
qed

lemma is_old_pr_age:
  "is_old_pr (get kvs ''created_at'' JNull) e (type_of_item kvs) = Inr b \<Longrightarrow>
   (\<exists>d. item_age e (JDict kvs) = Some d) \<and> b = older_than (OLD_DAYS_NUM (type_of_item kvs)) e (JDict kvs)"
  by (auto simp: is_old_pr_def older_than_def item_age_def item_created_at_def
        timedelta_days_whole Let_def split: sum.splits)

lemma of_type_by_type:
  "of_type t (by_type t' f st) = (if t = t' then f (of_type t st) else of_type t st)"
  by (cases t; cases t') (simp_all add: of_type_def by_type_def)

lemma by_type_twice: "by_type t f (by_type t g st) = by_type t (\<lambda>d. f (g d)) st"
  by (cases t) (simp_all add: by_type_def)

text \<open>The loop body on an object, its nested cases flattened.\<close>

lemma stats_step_dict:
  "stats_step s e st (JDict kvs) =
     (case in_window s (get kvs ''created_at'' JNull) e of
        Inl err \<Rightarrow> Inl err
      | Inr inside \<Rightarrow>
          if \<not> inside then Inr st
          else if get kvs ''state'' JNull = JStr ''open'' then
            (case is_old_pr (get kvs ''created_at'' JNull) e (type_of_item kvs) of
               Inl err \<Rightarrow> Inl err
             | Inr b \<Rightarrow>
                 Inr (by_type (type_of_item kvs)
                        (\<lambda>d. d\<lparr>open_count := open_count d + 1,
                                old_count := old_count d + (if b then 1 else 0)\<rparr>) st))
          else if get kvs ''state'' JNull = JStr ''closed'' then
            Inr (by_type (type_of_item kvs) (\<lambda>d. d\<lparr>closed_count := closed_count d + 1\<rparr>) st)
          else Inr st)"
  by (simp add: stats_step_def Let_def by_type_twice split: sum.splits)

text \<open>The four ways the loop body ends without an exception.\<close>

lemma stats_step_cases:
  assumes "stats_step s e st item = Inr st'"
  obtains
    (outside) "\<not> item_inside s e item" "st' = st"
  | (opened) "item_inside s e item" "item_state item = JStr ''open''"
      "\<exists>d. item_age e item = Some d"
      "st' = by_type (item_kind item)
               (\<lambda>d. d\<lparr>open_count := open_count d + 1,
                       old_count := old_count d + (if older_than (OLD_DAYS_NUM (item_kind item)) e item then 1 else 0)\<rparr>) st"
  | (closed) "item_inside s e item" "item_state item = JStr ''closed''"
      "st' = by_type (item_kind item) (\<lambda>d. d\<lparr>closed_count := closed_count d + 1\<rparr>) st"
  | (other) "item_inside s e item" "item_state item \<noteq> JStr ''open''"
      "item_state item \<noteq> JStr ''closed''" "st' = st"
proof -
  from assms obtain kvs where item: "item = JDict kvs"
    by (cases item) (simp_all add: stats_step_def)
  from assms item obtain c where c: "get kvs ''created_at'' JNull = JStr c"
    by (cases "get kvs ''created_at'' JNull") (simp_all add: stats_step_def in_window_def)
  have win: "in_window s (get kvs ''created_at'' JNull) e = Inr (item_inside s e (JDict kvs))"
    by (simp add: in_window_def c item_inside_def item_created_at_def)
  note step = assms [unfolded item stats_step_dict win sum.case]
  note views = item item_state_def item_kind_def
  show thesis
  proof (cases "item_inside s e (JDict kvs)")
    case False
    with step have "st' = st" by simp
    with False show thesis by (intro outside) (simp_all add: views)
  next
    case True
    show thesis
    proof (cases "get kvs ''state'' JNull = JStr ''open''")
      case opn: True
      with step True obtain b where
          b: "is_old_pr (get kvs ''created_at'' JNull) e (type_of_item kvs) = Inr b"
          and st': "st' = by_type (type_of_item kvs)
                     (\<lambda>d. d\<lparr>open_count := open_count d + 1,
                             old_count := old_count d + (if b then 1 else 0)\<rparr>) st"
        by (cases "is_old_pr (get kvs ''created_at'' JNull) e (type_of_item kvs)") auto
      from is_old_pr_age [OF b]
      have "\<exists>d. item_age e (JDict kvs) = Some d" and "b = older_than (OLD_DAYS_NUM (type_of_item kvs)) e (JDict kvs)"
        by simp_all
      with st' True opn show thesis by (intro opened) (simp_all add: views)
    next
      case nopn: False
      show thesis
      proof (cases "get kvs ''state'' JNull = JStr ''closed''")
        case clo: True
        with step nopn True
        have "st' = by_type (type_of_item kvs) (\<lambda>d. d\<lparr>closed_count := closed_count d + 1\<rparr>) st"
          by simp
        with True clo show thesis by (intro closed) (simp_all add: views)
      next
        case False
        with step nopn True have "st' = st" by simp
        with True nopn False show thesis by (intro other) (simp_all add: views)
      qed
    qed
  qed
qed

text \<open>What one pass of the loop body does to the counters of a type.\<close>

lemma stats_step_effect:
  assumes "stats_step s e st item = Inr st'"
  shows "open_count (of_type t st') = open_count (of_type t st) +
           (if item_inside s e item \<and> item_kind item = t \<and> item_state item = JStr ''open'' then 1 else 0)"
    and "closed_count (of_type t st') = closed_count (of_type t st) +
           (if item_inside s e item \<and> item_kind item = t \<and> item_state item = JStr ''closed'' then 1 else 0)"
    and "old_count (of_type t st') = old_count (of_type t st) +
           (if item_inside s e item \<and> item_kind item = t \<and> item_state item = JStr ''open'' \<and>
               older_than (OLD_DAYS_NUM (item_kind item)) e item then 1 else 0)"
  using assms by (cases rule: stats_step_cases; simp add: of_type_by_type)+

lemma stats_loop_counts:
  "stats_loop s e items st = Inr st' \<Longrightarrow>
   open_count (of_type t st') = open_count (of_type t st) +
     count_items (\<lambda>x. item_inside s e x \<and> item_kind x = t \<and> item_state x = JStr ''open'') items \<and>
   closed_count (of_type t st') = closed_count (of_type t st) +
     count_items (\<lambda>x. item_inside s e x \<and> item_kind x = t \<and> item_state x = JStr ''closed'') items \<and>
   old_count (of_type t st') = old_count (of_type t st) +
     count_items (\<lambda>x. item_inside s e x \<and> item_kind x = t \<and> item_state x = JStr ''open'' \<and>
                       older_than (OLD_DAYS_NUM t) e x) items"
proof (induction items arbitrary: st)
  case Nil
  then show ?case by (simp add: count_items_def)
next
  case (Cons item items)
  from Cons.prems obtain st1 where
      step: "stats_step s e st item = Inr st1" and rest: "stats_loop s e items st1 = Inr st'"
    by (cases "stats_step s e st item") auto
  from stats_step_effect [OF step, of t] Cons.IH [OF rest]
  show ?case by (auto simp: count_items_def)
qed

lemma stats_loop_ages:
  "stats_loop s e items st = Inr st' \<Longrightarrow>
   list_all (\<lambda>x. \<not> (item_inside s e x \<and> item_state x = JStr ''open'') \<or> item_age e x \<noteq> None) items"
proof (induction items arbitrary: st)
  case Nil
  then show ?case by simp
next
  case (Cons item items)
  from Cons.prems obtain st1 where
      step: "stats_step s e st item = Inr st1" and rest: "stats_loop s e items st1 = Inr st'"
    by (cases "stats_step s e st item") auto
  from step have "\<not> (item_inside s e item \<and> item_state item = JStr ''open'') \<or> item_age e item \<noteq> None"
    by (cases rule: stats_step_cases) auto
  with Cons.IH [OF rest] show ?case by simp
qed

lemma stats_loop_append:
  "stats_loop s e (xs @ ys) st =
     (case stats_loop s e xs st of Inl err \<Rightarrow> Inl err | Inr st' \<Rightarrow> stats_loop s e ys st')"
  by (induction xs arbitrary: st) (auto split: sum.splits)

lemma str_lt_irrefl: "\<not> str_lt s s"
  by (induction s) auto

lemma item_created_at_dict: "item_created_at item = JStr c \<Longrightarrow> \<exists>kvs. item = JDict kvs \<and> get kvs ''created_at'' JNull = JStr c"
  by (cases item) (simp_all add: item_created_at_def)

lemma stats_step_boundary:
  assumes "item_created_at item = JStr s \<or> item_created_at item = JStr e"
  shows "stats_step s e st item = Inr st"
proof -
  from assms obtain kvs where item: "item = JDict kvs"
      and c: "get kvs ''created_at'' JNull = JStr s \<or> get kvs ''created_at'' JNull = JStr e"
    using item_created_at_dict by blast
  from c have "in_window s (get kvs ''created_at'' JNull) e = Inr False"
    by (auto simp: in_window_def str_lt_irrefl)
  then show ?thesis by (simp add: item stats_step_dict)
qed





lemmas calendar_defs =
  timedelta_days_def toordinal_def day_seconds_def days_before_year_def days_before_month_def
  DAYS_BEFORE_MONTH_def OLD_DAYS_NUM_def

lemmas view_defs =
  item_inside_def item_created_at_def item_state_def item_kind_def item_age_def older_than_def
  count_items_def whole_days_def

lemmas stats_defs =
  stats_def stats_step_dict in_window_def is_old_pr_def strptime_json_def type_of_item_def get_def
  by_type_def zero_counters_def

lemma older_than_kind:
  "older_than (OLD_DAYS_NUM Issue) e x = older_than 14 e x"
  "older_than (OLD_DAYS_NUM Pull_request) e x = older_than 30 e x"
  by (simp_all add: OLD_DAYS_NUM_def)

lemma stats_step_not_open:
  assumes "item = JDict kvs" "item_inside s e item" "item_state item \<noteq> JStr ''open''"
  shows "\<exists>st'. stats_step s e st item = Inr st' \<and>
           old_count (fst st') = old_count (fst st) \<and> old_count (snd st') = old_count (snd st)"
proof -
  from assms(1,2) obtain c where c: "get kvs ''created_at'' JNull = JStr c"
    by (cases "get kvs ''created_at'' JNull") (simp_all add: item_inside_def item_created_at_def)
  with assms(1,2) have "in_window s (get kvs ''created_at'' JNull) e = Inr True"
    by (simp add: in_window_def item_inside_def item_created_at_def)
  with assms(1,3) show ?thesis
    by (cases st; cases "type_of_item kvs") (auto simp: stats_step_dict item_state_def by_type_def)
qed

text \<open>
  C4. When the statistics of a list of items end without an exception, the
  \<open>old\<close> counter of the issues is the number of items inside the window, of
  type issue and of state \<open>open\<close>, whose age in whole days at the end date is
  above 14, and the \<open>old\<close> counter of the pull requests is the same with type
  pull request and 30; every open item inside the window had an age to compare.
  An item inside the window that is not open passes the loop body whatever its
  date, and leaves both \<open>old\<close> counters as they were. For four items of the
  ages and states of the specification's example (an open issue of 20 days, a
  closed issue, open pull requests of 40 and of 5 days) the counters are
  1, 1, 1 for the issues and 2, 0, 1 for the pull requests.
\<close>

theorem old_items_counted:
  "(stats start_date end_date items = Inr (issues, pull_requests) \<longrightarrow>
      old_count issues =
        count_items (\<lambda>x. item_inside start_date end_date x \<and> item_kind x = Issue \<and>
                          item_state x = JStr ''open'' \<and> older_than 14 end_date x) items \<and>
      old_count pull_requests =
        count_items (\<lambda>x. item_inside start_date end_date x \<and> item_kind x = Pull_request \<and>
                          item_state x = JStr ''open'' \<and> older_than 30 end_date x) items \<and>
      list_all (\<lambda>x. \<not> (item_inside start_date end_date x \<and> item_state x = JStr ''open'') \<or>
                     item_age end_date x \<noteq> None) items) \<and>
   (item_inside start_date end_date (JDict kvs) \<and> item_state (JDict kvs) \<noteq> JStr ''open'' \<longrightarrow>
      (\<exists>st'. stats_step start_date end_date st (JDict kvs) = Inr st' \<and>
             old_count (fst st') = old_count (fst st) \<and> old_count (snd st') = old_count (snd st))) \<and>
   stats ''1970-01-01T00:00:00Z'' ''2020-03-01T00:00:00Z''
     [JDict [(''created_at'', JStr ''2020-02-10T00:00:00Z''), (''state'', JStr ''open'')],
      JDict [(''created_at'', JStr ''2020-02-20T00:00:00Z''), (''state'', JStr ''closed'')],
      JDict [(''created_at'', JStr ''2020-01-21T00:00:00Z''), (''state'', JStr ''open''),
             (''pull_request'', JDict [(''url'', JStr ''https://api.github.com/repos/o/r/pulls/3'')])],
      JDict [(''created_at'', JStr ''2020-02-25T00:00:00Z''), (''state'', JStr ''open''),
             (''pull_request'', JDict [(''url'', JStr ''https://api.github.com/repos/o/r/pulls/4'')])]]
     = Inr (\<lparr>open_count = 1, closed_count = 1, old_count = 1\<rparr>,
            \<lparr>open_count = 2, closed_count = 0, old_count = 1\<rparr>) \<and>
   item_age ''2020-03-01T00:00:00Z'' (JDict [(''created_at'', JStr ''2020-02-10T00:00:00Z'')]) = Some 20 \<and>
   item_age ''2020-03-01T00:00:00Z'' (JDict [(''created_at'', JStr ''2020-01-21T00:00:00Z'')]) = Some 40 \<and>
   item_age ''2020-03-01T00:00:00Z'' (JDict [(''created_at'', JStr ''2020-02-25T00:00:00Z'')]) = Some 5"
proof (intro conjI impI)
  assume run: "stats start_date end_date items = Inr (issues, pull_requests)"
  then have loop: "stats_loop start_date end_date items (zero_counters, zero_counters) = Inr (issues, pull_requests)"
    by (simp add: stats_def)
  from stats_loop_counts [OF loop, of Issue]
  show "old_count issues =
        count_items (\<lambda>x. item_inside start_date end_date x \<and> item_kind x = Issue \<and>
                          item_state x = JStr ''open'' \<and> older_than 14 end_date x) items"
    by (simp add: of_type_def zero_counters_def older_than_kind)
  from stats_loop_counts [OF loop, of Pull_request]
  show "old_count pull_requests =
        count_items (\<lambda>x. item_inside start_date end_date x \<and> item_kind x = Pull_request \<and>
                          item_state x = JStr ''open'' \<and> older_than 30 end_date x) items"
    by (simp add: of_type_def zero_counters_def older_than_kind)
  from loop show "list_all (\<lambda>x. \<not> (item_inside start_date end_date x \<and> item_state x = JStr ''open'') \<or>
                     item_age end_date x \<noteq> None) items"
    by (rule stats_loop_ages)
next
  assume "item_inside start_date end_date (JDict kvs) \<and> item_state (JDict kvs) \<noteq> JStr ''open''"
  then show "\<exists>st'. stats_step start_date end_date st (JDict kvs) = Inr st' \<and>
             old_count (fst st') = old_count (fst st) \<and> old_count (snd st') = old_count (snd st)"
    using stats_step_not_open [of "JDict kvs" kvs] by simp
next
  show "stats ''1970-01-01T00:00:00Z'' ''2020-03-01T00:00:00Z''
     [JDict [(''created_at'', JStr ''2020-02-10T00:00:00Z''), (''state'', JStr ''open'')],
      JDict [(''created_at'', JStr ''2020-02-20T00:00:00Z''), (''state'', JStr ''closed'')],
      JDict [(''created_at'', JStr ''2020-01-21T00:00:00Z''), (''state'', JStr ''open''),
             (''pull_request'', JDict [(''url'', JStr ''https://api.github.com/repos/o/r/pulls/3'')])],
      JDict [(''created_at'', JStr ''2020-02-25T00:00:00Z''), (''state'', JStr ''open''),
             (''pull_request'', JDict [(''url'', JStr ''https://api.github.com/repos/o/r/pulls/4'')])]]
     = Inr (\<lparr>open_count = 1, closed_count = 1, old_count = 1\<rparr>,
            \<lparr>open_count = 2, closed_count = 0, old_count = 1\<rparr>)"
    by (simp add: stats_defs strptime_defs calendar_defs)
next
  show "item_age ''2020-03-01T00:00:00Z'' (JDict [(''created_at'', JStr ''2020-02-10T00:00:00Z'')]) = Some 20"
    by (simp add: view_defs get_def strptime_json_def strptime_defs calendar_defs)
next
  show "item_age ''2020-03-01T00:00:00Z'' (JDict [(''created_at'', JStr ''2020-01-21T00:00:00Z'')]) = Some 40"
    by (simp add: view_defs get_def strptime_json_def strptime_defs calendar_defs)
next
  show "item_age ''2020-03-01T00:00:00Z'' (JDict [(''created_at'', JStr ''2020-02-25T00:00:00Z'')]) = Some 5"
    by (simp add: view_defs get_def strptime_json_def strptime_defs calendar_defs)
qed

text \<open>
  Two open issues, of 15 days less one second and of 15 days, and a closed one:
  the second only is old. A closed item whose \<open>created_at\<close> is no date passes.
\<close>

theorem old_items_counted_witness:
  "stats ''2020-01-01T00:00:00Z'' ''2020-03-01T00:00:00Z''
     [JDict [(''created_at'', JStr ''2020-02-15T00:00:01Z''), (''state'', JStr ''open'')],
      JDict [(''created_at'', JStr ''2020-02-15T00:00:00Z''), (''state'', JStr ''open'')],
      JDict [(''created_at'', JStr ''2020-01-05T00:00:00Z''), (''state'', JStr ''closed'')]]
     = Inr (\<lparr>open_count = 2, closed_count = 1, old_count = 1\<rparr>, zero_counters) \<and>
   item_age ''2020-03-01T00:00:00Z''
     (JDict [(''created_at'', JStr ''2020-02-15T00:00:01Z''), (''state'', JStr ''open'')]) = Some 14 \<and>
   item_age ''2020-03-01T00:00:00Z''
     (JDict [(''created_at'', JStr ''2020-02-15T00:00:00Z''), (''state'', JStr ''open'')]) = Some 15 \<and>
   count_items (\<lambda>x. item_inside ''2020-01-01T00:00:00Z'' ''2020-03-01T00:00:00Z'' x \<and> item_kind x = Issue \<and>
                     item_state x = JStr ''open'' \<and> older_than 14 ''2020-03-01T00:00:00Z'' x)
     [JDict [(''created_at'', JStr ''2020-02-15T00:00:01Z''), (''state'', JStr ''open'')],
      JDict [(''created_at'', JStr ''2020-02-15T00:00:00Z''), (''state'', JStr ''open'')],
      JDict [(''created_at'', JStr ''2020-01-05T00:00:00Z''), (''state'', JStr ''closed'')]] = 1 \<and>
   item_inside ''2020-01-01T00:00:00Z'' ''2020-03-01T00:00:00Z''
     (JDict [(''created_at'', JStr ''2020-02''), (''state'', JStr ''closed'')]) \<and>
   (\<exists>st'. stats_step ''2020-01-01T00:00:00Z'' ''2020-03-01T00:00:00Z'' (zero_counters, zero_counters)
            (JDict [(''created_at'', JStr ''2020-02''), (''state'', JStr ''closed'')]) = Inr st' \<and>
          old_count (fst st') = 0 \<and> old_count (snd st') = 0)"
proof -
  let ?items = "[JDict [(''created_at'', JStr ''2020-02-15T00:00:01Z''), (''state'', JStr ''open'')],
      JDict [(''created_at'', JStr ''2020-02-15T00:00:00Z''), (''state'', JStr ''open'')],
      JDict [(''created_at'', JStr ''2020-01-05T00:00:00Z''), (''state'', JStr ''closed'')]]"
  let ?kvs = "[(''created_at'', JStr ''2020-02''), (''state'', JStr ''closed'')]"
  have run: "stats ''2020-01-01T00:00:00Z'' ''2020-03-01T00:00:00Z'' ?items
     = Inr (\<lparr>open_count = 2, closed_count = 1, old_count = 1\<rparr>, zero_counters)"
    by (simp add: stats_defs strptime_defs calendar_defs)
  have a1: "item_age ''2020-03-01T00:00:00Z''
     (JDict [(''created_at'', JStr ''2020-02-15T00:00:01Z''), (''state'', JStr ''open'')]) = Some 14"
    by (simp add: view_defs get_def strptime_json_def strptime_defs calendar_defs)
  have a2: "item_age ''2020-03-01T00:00:00Z''
     (JDict [(''created_at'', JStr ''2020-02-15T00:00:00Z''), (''state'', JStr ''open'')]) = Some 15"
    by (simp add: view_defs get_def strptime_json_def strptime_defs calendar_defs)
  have inside: "item_inside ''2020-01-01T00:00:00Z'' ''2020-03-01T00:00:00Z'' (JDict ?kvs)"
    by (simp add: view_defs get_def)
  have closed: "item_state (JDict ?kvs) \<noteq> JStr ''open''"
    by (simp add: view_defs get_def)
  note counted = old_items_counted [of "''2020-01-01T00:00:00Z''" "''2020-03-01T00:00:00Z''" ?items
      "\<lparr>open_count = 2, closed_count = 1, old_count = 1\<rparr>" zero_counters ?kvs
      "(zero_counters, zero_counters)"]
  from counted run
  have count: "count_items (\<lambda>x. item_inside ''2020-01-01T00:00:00Z'' ''2020-03-01T00:00:00Z'' x \<and> item_kind x = Issue \<and>
                     item_state x = JStr ''open'' \<and> older_than 14 ''2020-03-01T00:00:00Z'' x) ?items = 1"
    by simp
  from counted inside closed
  have step: "\<exists>st'. stats_step ''2020-01-01T00:00:00Z'' ''2020-03-01T00:00:00Z'' (zero_counters, zero_counters)
            (JDict ?kvs) = Inr st' \<and> old_count (fst st') = 0 \<and> old_count (snd st') = 0"
    by (simp add: zero_counters_def)
  from run a1 a2 count inside step show ?thesis by blast
qed

text \<open>
  C6. An item whose \<open>created_at\<close> is the start date or the end date is not inside
  the window: the loop body leaves all the counters as they are, and the
  statistics of a list are those of the list without the item, wherever it
  stands in it.
\<close>

theorem boundary_items_excluded:
  "item_created_at item = JStr start_date \<or> item_created_at item = JStr end_date \<longrightarrow>
     \<not> item_inside start_date end_date item \<and>
     stats_step start_date end_date st item = Inr st \<and>
     stats_loop start_date end_date (before @ item # after) st
       = stats_loop start_date end_date (before @ after) st \<and>
     stats start_date end_date (before @ item # after) = stats start_date end_date (before @ after)"
proof
  assume edge: "item_created_at item = JStr start_date \<or> item_created_at item = JStr end_date"
  then have out: "\<not> item_inside start_date end_date item"
    by (auto simp: item_inside_def str_lt_irrefl)
  have step: "\<And>st. stats_step start_date end_date st item = Inr st"
    using edge by (rule stats_step_boundary)
  have loop: "\<And>st. stats_loop start_date end_date (before @ item # after) st
       = stats_loop start_date end_date (before @ after) st"
    by (simp add: stats_loop_append step split: sum.splits)
  from out step loop show
    "\<not> item_inside start_date end_date item \<and>
     stats_step start_date end_date st item = Inr st \<and>
     stats_loop start_date end_date (before @ item # after) st
       = stats_loop start_date end_date (before @ after) st \<and>
     stats start_date end_date (before @ item # after) = stats start_date end_date (before @ after)"
    by (simp add: stats_def)
qed

text \<open>An open issue created at the end date, before a closed one inside the window.\<close>

theorem boundary_items_excluded_witness:
  "item_created_at (JDict [(''created_at'', JStr ''2020-03-01T00:00:00Z''), (''state'', JStr ''open'')])
     = JStr ''2020-03-01T00:00:00Z'' \<and>
   stats ''2020-01-01T00:00:00Z'' ''2020-03-01T00:00:00Z''
     [JDict [(''created_at'', JStr ''2020-03-01T00:00:00Z''), (''state'', JStr ''open'')],
      JDict [(''created_at'', JStr ''2020-01-05T00:00:00Z''), (''state'', JStr ''closed'')]]
     = Inr (\<lparr>open_count = 0, closed_count = 1, old_count = 0\<rparr>, zero_counters) \<and>
   stats ''2020-01-01T00:00:00Z'' ''2020-03-01T00:00:00Z''
     [JDict [(''created_at'', JStr ''2020-01-05T00:00:00Z''), (''state'', JStr ''closed'')]]
     = Inr (\<lparr>open_count = 0, closed_count = 1, old_count = 0\<rparr>, zero_counters)"
proof -
  have kept: "stats ''2020-01-01T00:00:00Z'' ''2020-03-01T00:00:00Z''
     [JDict [(''created_at'', JStr ''2020-01-05T00:00:00Z''), (''state'', JStr ''closed'')]]
     = Inr (\<lparr>open_count = 0, closed_count = 1, old_count = 0\<rparr>, zero_counters)"
    by (simp add: stats_defs)
  have edge: "item_created_at (JDict [(''created_at'', JStr ''2020-03-01T00:00:00Z''), (''state'', JStr ''open'')])
     = JStr ''2020-03-01T00:00:00Z''"
    by (simp add: item_created_at_def get_def)
  from boundary_items_excluded [of
      "JDict [(''created_at'', JStr ''2020-03-01T00:00:00Z''), (''state'', JStr ''open'')]"
      "''2020-01-01T00:00:00Z''" "''2020-03-01T00:00:00Z''" _ "[]"
      "[JDict [(''created_at'', JStr ''2020-01-05T00:00:00Z''), (''state'', JStr ''closed'')]]"] edge
  have "stats ''2020-01-01T00:00:00Z'' ''2020-03-01T00:00:00Z''
     [JDict [(''created_at'', JStr ''2020-03-01T00:00:00Z''), (''state'', JStr ''open'')],
      JDict [(''created_at'', JStr ''2020-01-05T00:00:00Z''), (''state'', JStr ''closed'')]]
     = stats ''2020-01-01T00:00:00Z'' ''2020-03-01T00:00:00Z''
     [JDict [(''created_at'', JStr ''2020-01-05T00:00:00Z''), (''state'', JStr ''closed'')]]"
    by simp
  with kept edge show ?thesis by simp
qed

lemma count_items_le:
  "(\<And>x. P x \<Longrightarrow> Q x) \<Longrightarrow> count_items P items \<le> count_items Q items"
  by (induction items) (auto simp: count_items_def)

lemma count_items_split:
  "(\<And>x. \<not> (P x \<and> Q x)) \<Longrightarrow>
   count_items P items + count_items Q items = count_items (\<lambda>x. P x \<or> Q x) items"
  by (induction items) (auto simp: count_items_def)

text \<open>
  C7, as the code has it. When the statistics end without an exception, the
  \<open>old\<close> counter of each record is at most its \<open>open\<close> counter, and an item is
  counted in \<open>open\<close> or \<open>closed\<close> once, in the record of its type, exactly when
  it is inside the window and its state is \<open>open\<close> or \<open>closed\<close>: the \<open>open\<close> and
  \<open>closed\<close> counters of a record add up to the number of such items of its
  type, and the four of them to the number of such items.
\<close>

theorem counters_classify:
  "stats start_date end_date items = Inr (issues, pull_requests) \<longrightarrow>
     old_count issues \<le> open_count issues \<and>
     old_count pull_requests \<le> open_count pull_requests \<and>
     open_count issues + closed_count issues =
       count_items (\<lambda>x. item_inside start_date end_date x \<and> item_kind x = Issue \<and>
                         (item_state x = JStr ''open'' \<or> item_state x = JStr ''closed'')) items \<and>
     open_count pull_requests + closed_count pull_requests =
       count_items (\<lambda>x. item_inside start_date end_date x \<and> item_kind x = Pull_request \<and>
                         (item_state x = JStr ''open'' \<or> item_state x = JStr ''closed'')) items \<and>
     open_count issues + closed_count issues + open_count pull_requests + closed_count pull_requests =
       count_items (\<lambda>x. item_inside start_date end_date x \<and>
                         (item_state x = JStr ''open'' \<or> item_state x = JStr ''closed'')) items"
proof
  assume run: "stats start_date end_date items = Inr (issues, pull_requests)"
  then have loop: "stats_loop start_date end_date items (zero_counters, zero_counters) = Inr (issues, pull_requests)"
    by (simp add: stats_def)
  let ?I = "item_inside start_date end_date"
  have sums: "open_count (of_type t (issues, pull_requests)) + closed_count (of_type t (issues, pull_requests)) =
       count_items (\<lambda>x. ?I x \<and> item_kind x = t \<and>
                         (item_state x = JStr ''open'' \<or> item_state x = JStr ''closed'')) items"
     and olds: "old_count (of_type t (issues, pull_requests)) \<le> open_count (of_type t (issues, pull_requests))" for t
  proof -
    from stats_loop_counts [OF loop, of t]
    have o: "open_count (of_type t (issues, pull_requests)) =
               count_items (\<lambda>x. ?I x \<and> item_kind x = t \<and> item_state x = JStr ''open'') items"
      and c: "closed_count (of_type t (issues, pull_requests)) =
               count_items (\<lambda>x. ?I x \<and> item_kind x = t \<and> item_state x = JStr ''closed'') items"
      and d: "old_count (of_type t (issues, pull_requests)) =
               count_items (\<lambda>x. ?I x \<and> item_kind x = t \<and> item_state x = JStr ''open'' \<and>
                                 older_than (OLD_DAYS_NUM t) end_date x) items"
      by (cases t; simp add: of_type_def zero_counters_def)+
    have "count_items (\<lambda>x. ?I x \<and> item_kind x = t \<and> item_state x = JStr ''open'') items +
          count_items (\<lambda>x. ?I x \<and> item_kind x = t \<and> item_state x = JStr ''closed'') items =
          count_items (\<lambda>x. (?I x \<and> item_kind x = t \<and> item_state x = JStr ''open'') \<or>
                            (?I x \<and> item_kind x = t \<and> item_state x = JStr ''closed'')) items"
      by (rule count_items_split) auto
    also have "(\<lambda>x. (?I x \<and> item_kind x = t \<and> item_state x = JStr ''open'') \<or>
                    (?I x \<and> item_kind x = t \<and> item_state x = JStr ''closed''))
             = (\<lambda>x. ?I x \<and> item_kind x = t \<and>
                         (item_state x = JStr ''open'' \<or> item_state x = JStr ''closed''))"
      by auto
    finally show "open_count (of_type t (issues, pull_requests)) + closed_count (of_type t (issues, pull_requests)) =
       count_items (\<lambda>x. ?I x \<and> item_kind x = t \<and>
                         (item_state x = JStr ''open'' \<or> item_state x = JStr ''closed'')) items"
      using o c by simp
    show "old_count (of_type t (issues, pull_requests)) \<le> open_count (of_type t (issues, pull_requests))"
      unfolding o d by (rule count_items_le) simp
  qed
  have both: "count_items (\<lambda>x. ?I x \<and> item_kind x = Issue \<and>
                         (item_state x = JStr ''open'' \<or> item_state x = JStr ''closed'')) items +
        count_items (\<lambda>x. ?I x \<and> item_kind x = Pull_request \<and>
                         (item_state x = JStr ''open'' \<or> item_state x = JStr ''closed'')) items =
        count_items (\<lambda>x. ?I x \<and> (item_state x = JStr ''open'' \<or> item_state x = JStr ''closed'')) items"
  proof -
    have "count_items (\<lambda>x. ?I x \<and> item_kind x = Issue \<and>
                         (item_state x = JStr ''open'' \<or> item_state x = JStr ''closed'')) items +
        count_items (\<lambda>x. ?I x \<and> item_kind x = Pull_request \<and>
                         (item_state x = JStr ''open'' \<or> item_state x = JStr ''closed'')) items =
        count_items (\<lambda>x. (?I x \<and> item_kind x = Issue \<and>
                         (item_state x = JStr ''open'' \<or> item_state x = JStr ''closed'')) \<or>
                       (?I x \<and> item_kind x = Pull_request \<and>
                         (item_state x = JStr ''open'' \<or> item_state x = JStr ''closed''))) items"
      by (rule count_items_split) auto
    also have "(\<lambda>x. (?I x \<and> item_kind x = Issue \<and>
                         (item_state x = JStr ''open'' \<or> item_state x = JStr ''closed'')) \<or>
                       (?I x \<and> item_kind x = Pull_request \<and>
                         (item_state x = JStr ''open'' \<or> item_state x = JStr ''closed'')))
        = (\<lambda>x. ?I x \<and> (item_state x = JStr ''open'' \<or> item_state x = JStr ''closed''))"
    proof
      fix x
      show "((?I x \<and> item_kind x = Issue \<and>
                         (item_state x = JStr ''open'' \<or> item_state x = JStr ''closed'')) \<or>
                       (?I x \<and> item_kind x = Pull_request \<and>
                         (item_state x = JStr ''open'' \<or> item_state x = JStr ''closed'')))
        = (?I x \<and> (item_state x = JStr ''open'' \<or> item_state x = JStr ''closed''))"
        by (cases "item_kind x") auto
    qed
    finally show ?thesis .
  qed
  from sums [of Issue] sums [of Pull_request] olds [of Issue] olds [of Pull_request] both
  show "old_count issues \<le> open_count issues \<and>
     old_count pull_requests \<le> open_count pull_requests \<and>
     open_count issues + closed_count issues =
       count_items (\<lambda>x. item_inside start_date end_date x \<and> item_kind x = Issue \<and>
                         (item_state x = JStr ''open'' \<or> item_state x = JStr ''closed'')) items \<and>
     open_count pull_requests + closed_count pull_requests =
       count_items (\<lambda>x. item_inside start_date end_date x \<and> item_kind x = Pull_request \<and>
                         (item_state x = JStr ''open'' \<or> item_state x = JStr ''closed'')) items \<and>
     open_count issues + closed_count issues + open_count pull_requests + closed_count pull_requests =
       count_items (\<lambda>x. item_inside start_date end_date x \<and>
                         (item_state x = JStr ''open'' \<or> item_state x = JStr ''closed'')) items"
    by (simp add: of_type_def)
qed

text \<open>An open issue and a closed pull request inside the window, a closed issue outside.\<close>

theorem counters_classify_witness:
  "stats ''2020-01-01T00:00:00Z'' ''2020-03-01T00:00:00Z''
     [JDict [(''created_at'', JStr ''2020-02-01T00:00:00Z''), (''state'', JStr ''open'')],
      JDict [(''created_at'', JStr ''2020-02-02T00:00:00Z''), (''state'', JStr ''closed''),
             (''pull_request'', JDict [(''url'', JStr ''u'')])],
      JDict [(''created_at'', JStr ''2019-02-02T00:00:00Z''), (''state'', JStr ''closed'')]]
     = Inr (\<lparr>open_count = 1, closed_count = 0, old_count = 1\<rparr>,
            \<lparr>open_count = 0, closed_count = 1, old_count = 0\<rparr>) \<and>
   count_items (\<lambda>x. item_inside ''2020-01-01T00:00:00Z'' ''2020-03-01T00:00:00Z'' x \<and>
                     (item_state x = JStr ''open'' \<or> item_state x = JStr ''closed''))
     [JDict [(''created_at'', JStr ''2020-02-01T00:00:00Z''), (''state'', JStr ''open'')],
      JDict [(''created_at'', JStr ''2020-02-02T00:00:00Z''), (''state'', JStr ''closed''),
             (''pull_request'', JDict [(''url'', JStr ''u'')])],
      JDict [(''created_at'', JStr ''2019-02-02T00:00:00Z''), (''state'', JStr ''closed'')]] = 2"
proof -
  let ?items = "[JDict [(''created_at'', JStr ''2020-02-01T00:00:00Z''), (''state'', JStr ''open'')],
      JDict [(''created_at'', JStr ''2020-02-02T00:00:00Z''), (''state'', JStr ''closed''),
             (''pull_request'', JDict [(''url'', JStr ''u'')])],
      JDict [(''created_at'', JStr ''2019-02-02T00:00:00Z''), (''state'', JStr ''closed'')]]"
  have run: "stats ''2020-01-01T00:00:00Z'' ''2020-03-01T00:00:00Z'' ?items
     = Inr (\<lparr>open_count = 1, closed_count = 0, old_count = 1\<rparr>,
            \<lparr>open_count = 0, closed_count = 1, old_count = 0\<rparr>)"
    by (simp add: stats_defs strptime_defs calendar_defs)
  from counters_classify [of "''2020-01-01T00:00:00Z''" "''2020-03-01T00:00:00Z''" ?items
      "\<lparr>open_count = 1, closed_count = 0, old_count = 1\<rparr>"
      "\<lparr>open_count = 0, closed_count = 1, old_count = 0\<rparr>"] run
  have "count_items (\<lambda>x. item_inside ''2020-01-01T00:00:00Z'' ''2020-03-01T00:00:00Z'' x \<and>
                     (item_state x = JStr ''open'' \<or> item_state x = JStr ''closed'')) ?items = 2"
    by simp
  with run show ?thesis by blast
qed

text \<open>
  C7 as the specification words it puts every item inside the window in
  \<open>open\<close> or in \<open>closed\<close>. An item inside the window without a state is in
  neither.
\<close>

theorem stateless_item_counterexample:
  "item_inside ''1970-01-01T00:00:00Z'' ''2020-03-01T00:00:00Z''
     (JDict [(''created_at'', JStr ''2020-02-10T00:00:00Z'')]) \<and>
   stats ''1970-01-01T00:00:00Z'' ''2020-03-01T00:00:00Z''
     [JDict [(''created_at'', JStr ''2020-02-10T00:00:00Z'')]]
     = Inr (\<lparr>open_count = 0, closed_count = 0, old_count = 0\<rparr>,
            \<lparr>open_count = 0, closed_count = 0, old_count = 0\<rparr>)"
  by (simp add: stats_defs view_defs)




section \<open>Properties of the fetch\<close>

lemma consume_any:
  "consume items r = (case consume [] r of Inl err \<Rightarrow> Inl err | Inr xs \<Rightarrow> Inr (items @ xs))"
  by (simp add: consume_def list_extend_def split: option.splits json.splits)

text \<open>
  A run that the responses at hand do not finish has sent one request for each
  of them, and goes on from there with whatever responses follow.
\<close>

lemma get_items_loop_more:
  "get_items_loop pre sent url login password items = None \<Longrightarrow>
   \<exists>reqs url' items'. url' \<noteq> [] \<and> length reqs = length pre \<and>
     (\<forall>post. get_items_loop (pre @ post) sent url login password items
             = get_items_loop post (sent @ reqs) url' login password items')"
proof (induction pre arbitrary: sent url items)
  case Nil
  then have "url \<noteq> []" by (simp split: if_splits)
  then show ?case by (intro exI [of _ "[]"] exI [of _ url] exI [of _ items]) simp
next
  case (Cons r pre)
  let ?req = "\<lparr>req_url = url, req_login = login, req_password = password\<rparr>"
  from Cons.prems have url: "url \<noteq> []"
    by (simp split: if_splits)
  with Cons.prems obtain response where r: "r = Some response"
    by (cases r) (simp_all add: Let_def)
  with Cons.prems url obtain items1 where c: "consume items response = Inr items1"
    by (cases "consume items response") (simp_all add: Let_def)
  with Cons.prems url r have ok: "status_error (status_code response) = None"
    by (cases "status_error (status_code response)") (simp_all add: Let_def)
  define url1 where "url1 = (case next_link response of None \<Rightarrow> [] | Some u \<Rightarrow> u)"
  have unfold: "get_items_loop (r # more) sent url login password items
                = get_items_loop more (sent @ [?req]) url1 login password items1" for more
    using url r c ok by (simp add: Let_def url1_def)
  from Cons.prems have "get_items_loop pre (sent @ [?req]) url1 login password items1 = None"
    by (simp only: unfold)
  from Cons.IH [OF this] obtain reqs url' items' where
      last: "url' \<noteq> []" and len: "length reqs = length pre"
      and go: "\<And>post. get_items_loop (pre @ post) (sent @ [?req]) url1 login password items1
                      = get_items_loop post ((sent @ [?req]) @ reqs) url' login password items'"
    by blast
  have "\<forall>post. get_items_loop ((r # pre) @ post) sent url login password items
             = get_items_loop post (sent @ (?req # reqs)) url' login password items'"
    using go by (simp add: unfold del: get_items_loop.simps)
  with last len show ?case
    by (intro exI [of _ "?req # reqs"] exI [of _ url'] exI [of _ items']) simp
qed

text \<open>
  C5, as the code has it. Take a fetch that the responses \<open>pre\<close> do not
  finish (it went through them and asks for another page), and let the next
  response have status 404, 403 or 401. If the body of that response can be
  consumed, the fetch raises the exception of the status, with one request
  sent for each response so far and none after: the responses \<open>rest\<close> are
  left where they were. If the body cannot be consumed (it is no JSON, or no
  iterable value), the failure of consuming it is raised instead, the status
  being checked afterwards only. The exceptions are those of the three
  messages, and no other status raises one.
\<close>

theorem error_status_stops_fetch:
  "(get_items_list (pre, sent) url login password = None \<and>
    status_error (status_code r) = Some err \<and> consume [] r = Inr xs \<longrightarrow>
      (\<exists>reqs. get_items_list (pre @ Some r # rest, sent) url login password
                 = Some (Inl err, rest, sent @ reqs) \<and>
              length reqs = Suc (length pre))) \<and>
   (get_items_list (pre, sent) url login password = None \<and> consume [] r = Inl failure \<longrightarrow>
      (\<exists>reqs. get_items_list (pre @ Some r # rest, sent) url login password
                 = Some (Inl failure, rest, sent @ reqs) \<and>
              length reqs = Suc (length pre))) \<and>
   status_error 404 = Some (ArgumentTypeError branch_message) \<and>
   status_error 403 = Some (ArgumentTypeError ''Request limit'') \<and>
   status_error 401 = Some (ArgumentTypeError ''Wrong credentials'') \<and>
   (status_error code \<noteq> None \<longleftrightarrow> code = 404 \<or> code = 403 \<or> code = 401)"
proof (intro conjI impI)
  assume a: "get_items_list (pre, sent) url login password = None \<and>
    status_error (status_code r) = Some err \<and> consume [] r = Inr xs"
  then have "get_items_loop pre sent url login password [] = None"
    by (simp add: get_items_list_def)
  from get_items_loop_more [OF this] obtain reqs url' items' where
      url': "url' \<noteq> []" and len: "length reqs = length pre"
      and go: "\<And>post. get_items_loop (pre @ post) sent url login password []
                      = get_items_loop post (sent @ reqs) url' login password items'"
    by blast
  let ?req = "\<lparr>req_url = url', req_login = login, req_password = password\<rparr>"
  from a have "consume items' r = Inr (items' @ xs)"
    by (simp add: consume_any [of items'])
  with a url' have "get_items_loop (Some r # rest) (sent @ reqs) url' login password items'
        = Some (Inl err, rest, sent @ reqs @ [?req])"
    by (simp add: Let_def)
  with go [of "Some r # rest"] len
  have "get_items_list (pre @ Some r # rest, sent) url login password
          = Some (Inl err, rest, sent @ (reqs @ [?req])) \<and> length (reqs @ [?req]) = Suc (length pre)"
    by (simp add: get_items_list_def)
  then show "\<exists>reqs. get_items_list (pre @ Some r # rest, sent) url login password
                 = Some (Inl err, rest, sent @ reqs) \<and> length reqs = Suc (length pre)"
    by blast
next
  assume a: "get_items_list (pre, sent) url login password = None \<and> consume [] r = Inl failure"
  then have "get_items_loop pre sent url login password [] = None"
    by (simp add: get_items_list_def)
  from get_items_loop_more [OF this] obtain reqs url' items' where
      url': "url' \<noteq> []" and len: "length reqs = length pre"
      and go: "\<And>post. get_items_loop (pre @ post) sent url login password []
                      = get_items_loop post (sent @ reqs) url' login password items'"
    by blast
  let ?req = "\<lparr>req_url = url', req_login = login, req_password = password\<rparr>"
  from a have "consume items' r = Inl failure"
    by (simp add: consume_any [of items'])
  with url' have "get_items_loop (Some r # rest) (sent @ reqs) url' login password items'
        = Some (Inl failure, rest, sent @ reqs @ [?req])"
    by (simp add: Let_def)
  with go [of "Some r # rest"] len
  have "get_items_list (pre @ Some r # rest, sent) url login password
          = Some (Inl failure, rest, sent @ (reqs @ [?req])) \<and> length (reqs @ [?req]) = Suc (length pre)"
    by (simp add: get_items_list_def)
  then show "\<exists>reqs. get_items_list (pre @ Some r # rest, sent) url login password
                 = Some (Inl failure, rest, sent @ reqs) \<and> length reqs = Suc (length pre)"
    by blast
qed (simp_all add: status_error_def)

text \<open>
  A first page with a next link, a second page with status 404, a third page
  never asked for; and the same with a second page of status 403 whose body is
  \<open>null\<close>.
\<close>

theorem error_status_stops_fetch_witness:
  "get_items_list ([Some \<lparr>decoded = Some (JList [JNum 1]), status_code = 200, next_link = Some ''page2''\<rparr>], [])
     ''page1'' ''user'' ''secret'' = None \<and>
   get_items_list
     ([Some \<lparr>decoded = Some (JList [JNum 1]), status_code = 200, next_link = Some ''page2''\<rparr>,
       Some \<lparr>decoded = Some (JDict [(''message'', JStr ''Not Found'')]), status_code = 404,
             next_link = Some ''page3''\<rparr>,
       Some \<lparr>decoded = Some (JList [JNum 3]), status_code = 200, next_link = None\<rparr>], [])
     ''page1'' ''user'' ''secret''
   = Some (Inl (ArgumentTypeError branch_message),
           [Some \<lparr>decoded = Some (JList [JNum 3]), status_code = 200, next_link = None\<rparr>],
           [\<lparr>req_url = ''page1'', req_login = ''user'', req_password = ''secret''\<rparr>,
            \<lparr>req_url = ''page2'', req_login = ''user'', req_password = ''secret''\<rparr>]) \<and>
   get_items_list
     ([Some \<lparr>decoded = Some (JList [JNum 1]), status_code = 200, next_link = Some ''page2''\<rparr>,
       Some \<lparr>decoded = Some JNull, status_code = 403, next_link = Some ''page3''\<rparr>,
       Some \<lparr>decoded = Some (JList [JNum 3]), status_code = 200, next_link = None\<rparr>], [])
     ''page1'' ''user'' ''secret''
   = Some (Inl TypeError,
           [Some \<lparr>decoded = Some (JList [JNum 3]), status_code = 200, next_link = None\<rparr>],
           [\<lparr>req_url = ''page1'', req_login = ''user'', req_password = ''secret''\<rparr>,
            \<lparr>req_url = ''page2'', req_login = ''user'', req_password = ''secret''\<rparr>])"
proof -
  let ?p1 = "\<lparr>decoded = Some (JList [JNum 1]), status_code = 200, next_link = Some ''page2''\<rparr>"
  let ?p2 = "\<lparr>decoded = Some (JDict [(''message'', JStr ''Not Found'')]), status_code = 404,
             next_link = Some ''page3''\<rparr>"
  let ?q2 = "\<lparr>decoded = Some JNull, status_code = 403, next_link = Some ''page3''\<rparr>"
  let ?p3 = "\<lparr>decoded = Some (JList [JNum 3]), status_code = 200, next_link = None\<rparr>"
  let ?r1 = "\<lparr>req_url = ''page1'', req_login = ''user'', req_password = ''secret''\<rparr>"
  let ?r2 = "\<lparr>req_url = ''page2'', req_login = ''user'', req_password = ''secret''\<rparr>"
  have more: "get_items_list ([Some ?p1], []) ''page1'' ''user'' ''secret'' = None"
    by (simp add: get_items_list_def consume_def list_extend_def status_error_def)
  have st: "status_error (status_code ?p2) = Some (ArgumentTypeError branch_message)"
    by (simp add: status_error_def)
  have body: "consume [] ?p2 = Inr [JStr ''message'']"
    by (simp add: consume_def list_extend_def)
  have nobody: "consume [] ?q2 = Inl TypeError"
    by (simp add: consume_def list_extend_def)
  from error_status_stops_fetch [of "[Some ?p1]" "[]" "''page1''" "''user''" "''secret''" ?p2
      "ArgumentTypeError branch_message" "[JStr ''message'']" "[Some ?p3]"] more st body
  obtain reqs where run: "get_items_list ([Some ?p1] @ Some ?p2 # [Some ?p3], []) ''page1'' ''user'' ''secret''
      = Some (Inl (ArgumentTypeError branch_message), [Some ?p3], [] @ reqs)"
    and len: "length reqs = Suc (length [Some ?p1])"
    by blast
  have sent: "get_items_list ([Some ?p1] @ Some ?p2 # [Some ?p3], []) ''page1'' ''user'' ''secret''
      = Some (Inl (ArgumentTypeError branch_message), [Some ?p3], [?r1, ?r2])"
    by (simp add: get_items_list_def consume_def list_extend_def status_error_def)
  from error_status_stops_fetch [of "[Some ?p1]" "[]" "''page1''" "''user''" "''secret''" ?q2
      _ _ "[Some ?p3]" TypeError] more nobody
  obtain reqs' where run': "get_items_list ([Some ?p1] @ Some ?q2 # [Some ?p3], []) ''page1'' ''user'' ''secret''
      = Some (Inl TypeError, [Some ?p3], [] @ reqs')"
    by blast
  have sent': "get_items_list ([Some ?p1] @ Some ?q2 # [Some ?p3], []) ''page1'' ''user'' ''secret''
      = Some (Inl TypeError, [Some ?p3], [?r1, ?r2])"
    by (simp add: get_items_list_def consume_def list_extend_def status_error_def)
  from more sent sent' show ?thesis by simp
qed

text \<open>
  C5 as the specification words it has every response of status 404 raise the
  exception of the missing branch. A response of status 404 whose text is no
  JSON raises the \<open>ValueError\<close> of the decoder.
\<close>

theorem undecodable_error_page_counterexample:
  "status_error 404 = Some (ArgumentTypeError branch_message) \<and>
   get_items_list ([Some \<lparr>decoded = None, status_code = 404, next_link = None\<rparr>], [])
     ''https://api.github.com/repos/o/r/commits'' '''' ''''
   = Some (Inl ValueError, [],
           [\<lparr>req_url = ''https://api.github.com/repos/o/r/commits'', req_login = '''', req_password = ''''\<rparr>])"
  by (simp add: get_items_list_def consume_def status_error_def)

text \<open>
  Three pages, the last without a next link: three requests, and the items of
  the three pages in their order.
\<close>

lemma three_pages:
  "get_items_list
     ([Some \<lparr>decoded = Some (JList xs), status_code = 200, next_link = Some ''p2''\<rparr>,
       Some \<lparr>decoded = Some (JList ys), status_code = 200, next_link = Some ''p3''\<rparr>,
       Some \<lparr>decoded = Some (JList zs), status_code = 200, next_link = None\<rparr>], [])
     ''p1'' login password
   = Some (Inr (xs @ ys @ zs), [],
           [\<lparr>req_url = ''p1'', req_login = login, req_password = password\<rparr>,
            \<lparr>req_url = ''p2'', req_login = login, req_password = password\<rparr>,
            \<lparr>req_url = ''p3'', req_login = login, req_password = password\<rparr>])"
  by (simp add: get_items_list_def consume_def list_extend_def status_error_def)

text \<open>
  C1 at the failing input. The window is the year 2020 and the server answers
  with one commit, of 1999: the commit is counted. The dates reach the request
  as the parameters \<open>start_date\<close> and \<open>end_date\<close> of the query string and are
  read nowhere else; no date of a commit is read at all.
\<close>

theorem commits_outside_window_are_counted:
  "get_top_contributors ''o'' ''r'' ''2020-01-01T00:00:00Z'' ''2020-12-31T00:00:00Z'' ''master'' '''' ''''
     ([Some \<lparr>decoded = Some (JList
               [JDict [(''author'', JDict [(''login'', JStr ''A'')]),
                       (''commit'', JDict [(''message'', JStr ''fix bug''),
                                           (''author'', JDict [(''date'', JStr ''1999-05-05T00:00:00Z'')])]),
                       (''created_at'', JStr ''1999-05-05T00:00:00Z'')]]),
              status_code = 200, next_link = None\<rparr>], [])
   = Some (Inr [(''A'', 1)], [],
           [\<lparr>req_url = ''https://api.github.com/repos/o/r/commits?start_date=2020-01-01T00:00:00Z&end_date=2020-12-31T00:00:00Z&sha=master&per_page=100'',
             req_login = '''', req_password = ''''\<rparr>])"
  by (simp add: get_top_contributors_def make_params_def COMMITS_URL_def BASE_URL_def PER_PAGE_def
        str_of_int_def nat_digits.simps get_items_list_def consume_def list_extend_def status_error_def
        tally_def tally_step_def commit_login_def commit_is_merge_def get_def increment_def
        contributors_def)

end
